theory Spec2Isabelle
  imports Complex_Main
begin

section \<open>JavaScript values used by the scraper\<close>

text \<open>
  Strings are sequences of code units. The model uses \<open>string\<close> (8-bit characters)
  read as Latin-1, one character per code unit: every literal of the source lies in that
  range (\<open>CHR 0xE3\<close> is a-tilde, \<open>CHR 0xE7\<close> c-cedilla, \<open>CHR 0xE9\<close> e-acute,
  \<open>CHR 0xF3\<close> o-acute, \<open>CHR 0xE1\<close> a-acute, \<open>CHR 0xBA\<close> the masculine ordinal
  indicator). Code units above U+00FF are outside the model.

  A JSON number is a \<open>real\<close>: the code only tests numbers for truthiness and copies them.
  An optional field is an \<open>option\<close>; \<open>None\<close> is \<open>undefined\<close>.
\<close>

type_synonym number = real

text \<open>Truthiness: a string is truthy when non-empty, a number when non-zero.\<close>

definition truthyS :: "string option \<Rightarrow> bool" where
  "truthyS v = (case v of None \<Rightarrow> False | Some s \<Rightarrow> s \<noteq> [])"

definition truthyN :: "number option \<Rightarrow> bool" where
  "truthyN v = (case v of None \<Rightarrow> False | Some x \<Rightarrow> x \<noteq> 0)"

definition truthyB :: "bool option \<Rightarrow> bool" where
  "truthyB v = (case v of None \<Rightarrow> False | Some b \<Rightarrow> b)"

text \<open>\<open>a || b\<close> on two optional strings, and \<open>a || 'literal'\<close>.\<close>

definition orS :: "string option \<Rightarrow> string option \<Rightarrow> string option" where
  "orS a b = (if truthyS a then a else b)"

definition orElseS :: "string option \<Rightarrow> string \<Rightarrow> string" where
  "orElseS a d = (case a of None \<Rightarrow> d | Some s \<Rightarrow> if s \<noteq> [] then s else d)"

text \<open>
  \<open>a || d\<close> on an optional number and a number; \<open>a || b || 0\<close> is
  \<open>orElseN a (orElseN b 0)\<close>.
\<close>

definition orElseN :: "number option \<Rightarrow> number \<Rightarrow> number" where
  "orElseN a d = (case a of None \<Rightarrow> d | Some x \<Rightarrow> if x \<noteq> 0 then x else d)"

text \<open>
  \<open>String.prototype.toLowerCase\<close> on Latin-1: A to Z and the accented capitals
  U+00C0 to U+00DE (the multiplication sign U+00D7 apart) move up by 32.
\<close>

definition lowerChar :: "char \<Rightarrow> char" where
  "lowerChar c = (let n = (of_char c :: nat) in
     if (65 \<le> n \<and> n \<le> 90) \<or> (192 \<le> n \<and> n \<le> 222 \<and> n \<noteq> 215)
     then char_of (n + 32) else c)"

definition toLowerCase :: "string \<Rightarrow> string" where
  "toLowerCase s = map lowerChar s"

text \<open>\<open>s.startsWith(t)\<close> and \<open>s.includes(t)\<close> (written \<open>includes_str\<close>).\<close>

fun startsWith :: "string \<Rightarrow> string \<Rightarrow> bool" where
  "startsWith s [] = True"
| "startsWith [] (c # t) = False"
| "startsWith (a # s) (c # t) = (a = c \<and> startsWith s t)"

fun includes_str :: "string \<Rightarrow> string \<Rightarrow> bool" where
  "includes_str [] t = startsWith [] t"
| "includes_str (a # s) t = (startsWith (a # s) t \<or> includes_str s t)"

text \<open>
  White space as \<open>trim\<close> and the regular expression class \<open>\s\<close> read it, within
  Latin-1: tab, line feed, vertical tab, form feed, carriage return, space, no-break space.
\<close>

definition isSpace :: "char \<Rightarrow> bool" where
  "isSpace c = (let n = (of_char c :: nat) in (9 \<le> n \<and> n \<le> 13) \<or> n = 32 \<or> n = 160)"

definition trim :: "string \<Rightarrow> string" where
  "trim s = rev (dropWhile isSpace (rev (dropWhile isSpace s)))"

text \<open>
  \<open>text.replace(/\s+/g, ' ')\<close>: every maximal run of white space becomes one space.
  The flag says that the previous character belonged to a run already replaced.
\<close>

fun collapseSpaces :: "bool \<Rightarrow> string \<Rightarrow> string" where
  "collapseSpaces inRun [] = []"
| "collapseSpaces inRun (c # s) =
     (if isSpace c
      then (if inRun then collapseSpaces True s else CHR '' '' # collapseSpaces True s)
      else c # collapseSpaces False s)"

text \<open>\<open>cleaned.match(/(\d+)/)\<close>: the leftmost maximal run of ASCII digits.\<close>

definition isDigit :: "char \<Rightarrow> bool" where
  "isDigit c = (let n = (of_char c :: nat) in 48 \<le> n \<and> n \<le> 57)"

definition firstDigits :: "string \<Rightarrow> string" where
  "firstDigits s = takeWhile isDigit (dropWhile (\<lambda>c. \<not> isDigit c) s)"

text \<open>
  \<open>parseInt(digits, 10)\<close> on a string of digits. (Beyond 2^53 JavaScript rounds to the
  nearest double; the model keeps the exact integer.)
\<close>

definition parseInt10 :: "string \<Rightarrow> nat" where
  "parseInt10 ds = foldl (\<lambda>n c. 10 * n + (of_char c - 48)) 0 ds"

text \<open>The decimal rendering of a non-negative integer in a template literal.\<close>

fun showNat :: "nat \<Rightarrow> string" where
  "showNat n = (if n < 10 then [char_of (48 + n)]
                else showNat (n div 10) @ [char_of (48 + n mod 10)])"

text \<open>\<open>parts.join(', ')\<close>.\<close>

fun joinComma :: "string list \<Rightarrow> string" where
  "joinComma [] = []"
| "joinComma [s] = s"
| "joinComma (s # t # ts) = s @ '', '' @ joinComma (t # ts)"

text \<open>
  The system clock. \<open>clk k\<close> is the instant (milliseconds since the epoch) that the
  \<open>k\<close>-th reading of the clock returns; functions that read the clock take the number of
  readings made so far and return it advanced.
\<close>

type_synonym clock = "nat \<Rightarrow> nat"

section \<open>parser.ts: the raw item and the parsed property\<close>

text \<open>
  \<open>IdealistaPropertyItem\<close>, with the fields the parser reads. Every field is optional.
  Fields whose name is taken (by a field of \<open>Property\<close>, or by a constant of HOL) carry
  the suffix \<open>_i\<close>: \<open>floor\<close>, \<open>price\<close>, \<open>propertyType\<close>, \<open>size\<close>, \<open>rooms\<close>,
  \<open>bathrooms\<close>, \<open>address\<close>, \<open>description\<close>, \<open>url\<close>. The fields of a label are
  \<open>label_type\<close> and \<open>label_text\<close>, \<open>priceInfo.price\<close> is \<open>priceInfo_price\<close> and
  \<open>suggestedTexts.title\<close> is \<open>suggested_title\<close>.
\<close>

record DetailedType =
  typology :: "string option"
  subTypology :: "string option"

record PriceAmount =
  amount :: "number option"
  currencySuffix :: "string option"

record PriceInfo =
  priceInfo_price :: "PriceAmount option"

record SuggestedTexts =
  subtitle :: "string option"
  suggested_title :: "string option"

record Label =
  label_type :: "string option"
  label_text :: "string option"

record IdealistaPropertyItem =
  propertyCode :: "string option"
  thumbnail :: "string option"
  externalReference :: "string option"
  floor_i :: "string option"
  price_i :: "number option"
  propertyType_i :: "string option"
  operation :: "string option"
  size_i :: "number option"
  exterior :: "bool option"
  rooms_i :: "number option"
  bathrooms_i :: "number option"
  address_i :: "string option"
  province :: "string option"
  municipality :: "string option"
  district :: "string option"
  neighborhood :: "string option"
  latitude :: "number option"
  longitude :: "number option"
  description_i :: "string option"
  detailedType :: "DetailedType option"
  newDevelopment :: "bool option"
  hasVideo :: "bool option"
  has3DTour :: "bool option"
  hasPlan :: "bool option"
  hasLift :: "bool option"
  priceInfo :: "PriceInfo option"
  detailedType_typology :: "string option"
  suggestedTexts :: "SuggestedTexts option"
  hasParkingSpace :: "bool option"
  url_i :: "string option"
  hasSwimmingPool :: "bool option"
  hasTerrace :: "bool option"
  hasGarden :: "bool option"
  labels :: "Label list option"

text \<open>
  \<open>Property\<close> (types.ts), with the fields \<open>parsePropertyItem\<close> sets. \<open>id\<close> is written
  \<open>id_p\<close> and \<open>details.floor\<close> is written \<open>floor_d\<close>. \<open>scrapedAt\<close> holds the
  instant read from the clock: the source stores its rendering by \<open>toISOString\<close>, which
  determines the instant and is determined by it.
\<close>

record Coordinates =
  lat :: number
  lon :: number

record PropertyLocation =
  address :: "string option"
  city :: string
  region :: "string option"
  country :: string
  coordinates :: "Coordinates option"

record PropertyDetails =
  bedrooms :: "number option"
  bathrooms :: "number option"
  sqm :: "number option"
  floor_d :: "number option"
  rooms :: "number option"

record Property =
  id_p :: string
  source :: string
  url :: string
  title :: string
  price :: number
  currency :: string
  propertyType :: string
  transactionType :: string
  location :: PropertyLocation
  details :: PropertyDetails
  features :: "string list"
  images :: "string list"
  description :: "string option"
  scrapedAt :: nat

definition SOURCE :: string where "SOURCE = ''idealista_portugal''"
definition COUNTRY :: string where "COUNTRY = ''Portugal''"
definition CURRENCY :: string where "CURRENCY = ''EUR''"
definition BASE_URL :: string where "BASE_URL = ''https://www.idealista.pt''"

text \<open>\<open>cleanText\<close>: absent or empty text is \<open>undefined\<close>.\<close>

definition cleanText :: "string option \<Rightarrow> string option" where
  "cleanText txt = (if truthyS txt
     then map_option (\<lambda>s. trim (collapseSpaces False s)) txt else None)"

text \<open>\<open>parseFloor\<close>.\<close>

definition parseFloor :: "string option \<Rightarrow> number option" where
  "parseFloor fl =
     (case fl of
        None \<Rightarrow> None
      | Some s \<Rightarrow>
          if s = [] then None
          else
            let cleaned = trim (toLowerCase s) in
            if includes_str cleaned ''r/c''
               \<or> includes_str cleaned (''r'' @ [CHR 0xE9] @ ''s'')
               \<or> includes_str cleaned (''t'' @ [CHR 0xE9] @ ''rr'') then Some 0
            else if includes_str cleaned ''cave'' \<or> includes_str cleaned ''subsolo''
              then Some (- 1)
            else if includes_str cleaned (''s'' @ [CHR 0xF3] @ ''t'' @ [CHR 0xE3] @ ''o'')
                    \<or> includes_str cleaned ([CHR 0xE1] @ ''tico'') then Some 99
            else (case firstDigits cleaned of
                    [] \<Rightarrow> None
                  | d # ds \<Rightarrow> Some (real (parseInt10 (d # ds)))))"

text \<open>\<open>mapPropertyType\<close>: a chain of tests on the lower-cased type string.\<close>

definition mapPropertyType :: "string option \<Rightarrow> string option \<Rightarrow> string" where
  "mapPropertyType propertyType' typology' =
     (let ty = toLowerCase (orElseS (orS propertyType' typology') '''') in
      if includes_str ty ''flat'' \<or> includes_str ty ''apartamento''
         \<or> includes_str ty ''apartment'' then ''apartment''
      else if includes_str ty ''moradia'' \<or> includes_str ty ''villa''
              \<or> includes_str ty ''chalet'' then ''villa''
      else if includes_str ty ''house'' \<or> includes_str ty ''casa'' then ''house''
      else if includes_str ty ''penthouse'' \<or> includes_str ty ''cobertura'' then ''penthouse''
      else if includes_str ty ''duplex'' then ''duplex''
      else if includes_str ty ''studio'' \<or> includes_str ty ''t0'' then ''studio''
      else if includes_str ty ''loft'' then ''loft''
      else if includes_str ty ''office''
              \<or> includes_str ty (''escrit'' @ [CHR 0xF3] @ ''rio'') then ''office''
      else if includes_str ty ''premises'' \<or> includes_str ty ''loja'' then ''commercial''
      else if includes_str ty ''garage'' \<or> includes_str ty ''garagem'' then ''garage''
      else if includes_str ty ''parking'' \<or> includes_str ty ''estacionamento'' then ''parking''
      else if includes_str ty ''building''
              \<or> includes_str ty (''pr'' @ [CHR 0xE9] @ ''dio'') then ''building''
      else if includes_str ty ''land'' \<or> includes_str ty ''terreno'' then ''land''
      else ''other'')"

text \<open>\<open>mapTransactionType\<close>.\<close>

definition mapTransactionType :: "string option \<Rightarrow> string" where
  "mapTransactionType operation' =
     (let op = toLowerCase (orElseS operation' '''') in
      if includes_str op ''sale'' \<or> includes_str op ''comprar'' \<or> includes_str op ''venda''
        then ''sale''
      else if includes_str op ''rent'' \<or> includes_str op ''arrendar''
              \<or> includes_str op ''alugar'' then ''rent''
      else ''sale'')"

text \<open>\<open>extractFeatures\<close>: the pushes in the order of the source, then the label texts.\<close>

definition labelFeatures :: "Label list \<Rightarrow> string list" where
  "labelFeatures ls =
     concat (map (\<lambda>l. if truthyS (label_text l)
                        then (case label_text l of None \<Rightarrow> [] | Some t \<Rightarrow> [toLowerCase t])
                        else []) ls)"

definition extractFeatures :: "IdealistaPropertyItem \<Rightarrow> string list" where
  "extractFeatures item =
       (if truthyB (exterior item) then [''exterior''] else [])
     @ (if truthyB (hasLift item) then [''elevator''] else [])
     @ (if truthyB (hasParkingSpace item) then [''parking''] else [])
     @ (if truthyB (hasSwimmingPool item) then [''swimming pool''] else [])
     @ (if truthyB (hasTerrace item) then [''terrace''] else [])
     @ (if truthyB (hasGarden item) then [''garden''] else [])
     @ (if truthyB (hasVideo item) then [''video available''] else [])
     @ (if truthyB (has3DTour item) then [''3D tour''] else [])
     @ (if truthyB (hasPlan item) then [''floor plan''] else [])
     @ (if truthyB (newDevelopment item) then [''new development''] else [])
     @ (case labels item of None \<Rightarrow> [] | Some ls \<Rightarrow> labelFeatures ls)"

text \<open>\<open>buildPropertyUrl\<close>.\<close>

definition buildPropertyUrl :: "string option \<Rightarrow> string option \<Rightarrow> string" where
  "buildPropertyUrl propertyCode' url' =
     (let u = orElseS url' '''' in
      if truthyS url' \<and> startsWith u ''/'' then BASE_URL @ u
      else if truthyS url' \<and> startsWith u ''http'' then u
      else if truthyS propertyCode'
        then BASE_URL @ ''/imovel/'' @ orElseS propertyCode' '''' @ ''/''
      else BASE_URL)"

text \<open>
  The optional chains \<open>item.priceInfo?.price?.amount\<close>, \<open>item.detailedType?.typology\<close>,
  \<open>item.suggestedTexts?.title\<close> and \<open>item.suggestedTexts?.subtitle\<close>.
\<close>

definition priceInfoAmount :: "IdealistaPropertyItem \<Rightarrow> number option" where
  "priceInfoAmount item =
     (case priceInfo item of
        None \<Rightarrow> None
      | Some pinfo \<Rightarrow> (case priceInfo_price pinfo of
                       None \<Rightarrow> None
                     | Some pr \<Rightarrow> amount pr))"

definition detailedTypology :: "IdealistaPropertyItem \<Rightarrow> string option" where
  "detailedTypology item =
     (case detailedType item of None \<Rightarrow> None | Some dt \<Rightarrow> typology dt)"

definition suggestedTitle :: "IdealistaPropertyItem \<Rightarrow> string option" where
  "suggestedTitle item =
     (case suggestedTexts item of None \<Rightarrow> None | Some st \<Rightarrow> suggested_title st)"

definition suggestedSubtitle :: "IdealistaPropertyItem \<Rightarrow> string option" where
  "suggestedSubtitle item =
     (case suggestedTexts item of None \<Rightarrow> None | Some st \<Rightarrow> subtitle st)"

text \<open>
  \<open>parsePropertyItem\<close>. The object literal is evaluated field by field: \<open>Date.now()\<close>
  is read for the identifier only when both \<open>propertyCode\<close> and \<open>externalReference\<close>
  are falsy, and \<open>new Date()\<close> is read last, for \<open>scrapedAt\<close>.
\<close>

definition parsePropertyItem ::
  "clock \<Rightarrow> nat \<Rightarrow> IdealistaPropertyItem \<Rightarrow> string \<Rightarrow> Property \<times> nat" where
  "parsePropertyItem clk k item location' =
     (let price' = orElseN (price_i item) (orElseN (priceInfoAmount item) 0);
          propertyType' = mapPropertyType (propertyType_i item)
                            (orS (detailedTypology item) (detailedType_typology item));
          transactionType' = mapTransactionType (operation item);
          addressParts = concat (map (\<lambda>v. case v of
                                             None \<Rightarrow> []
                                           | Some s \<Rightarrow> if s \<noteq> [] then [s] else [])
                           [address_i item, neighborhood item, district item,
                            municipality item]);
          synthesized = \<not> truthyS (orS (propertyCode item) (externalReference item));
          k1 = (if synthesized then Suc k else k)
      in (\<lparr> id_p = orElseS (orS (propertyCode item) (externalReference item))
                     (''idealista-'' @ showNat (clk k)),
            source = SOURCE,
            url = buildPropertyUrl (propertyCode item) (url_i item),
            title = orElseS
                      (cleanText (orS (suggestedTitle item) (address_i item)))
                      ''Property in Portugal'',
            price = price',
            currency = CURRENCY,
            propertyType = propertyType',
            transactionType = transactionType',
            location = \<lparr> address = (if 0 < length addressParts
                                      then Some (joinComma addressParts) else None),
                         city = orElseS (municipality item) location',
                         region = province item,
                         country = COUNTRY,
                         coordinates = (if truthyN (latitude item) \<and> truthyN (longitude item)
                                        then Some \<lparr> lat = orElseN (latitude item) 0,
                                                    lon = orElseN (longitude item) 0 \<rparr>
                                        else None) \<rparr>,
            details = \<lparr> bedrooms = rooms_i item,
                        bathrooms = bathrooms_i item,
                        sqm = size_i item,
                        floor_d = parseFloor (floor_i item),
                        rooms = rooms_i item \<rparr>,
            features = extractFeatures item,
            images = (if truthyS (thumbnail item)
                      then [orElseS (thumbnail item) ''''] else []),
            description = cleanText (orS (description_i item) (suggestedSubtitle item)),
            scrapedAt = clk k1 \<rparr>,
          Suc k1))"

text \<open>
  The embedded state (\<open>IdealistaNextData\<close>). The JSON is untrusted: an entry of
  \<open>elementList\<close> can be \<open>null\<close>, on which \<open>parsePropertyItem\<close> raises a TypeError
  when it reads \<open>item.price\<close>, and \<open>elementList\<close> can be a truthy value that is not an
  array, on which \<open>elementList.map\<close> raises a TypeError. The field \<open>currentPage\<close> of
  the search data is written \<open>currentPage_s\<close>.
\<close>

datatype raw_element = JNull | JItem IdealistaPropertyItem

datatype element_list = ElementArray "raw_element list" | NotAnArray

record IdealistaSearchData =
  elementList :: "element_list option"
  total :: "number option"
  totalPages :: "number option"
  currentPage_s :: "number option"
  actualPage :: "number option"

record PageProps =
  searchData :: "IdealistaSearchData option"

record Props =
  pageProps :: "PageProps option"

record IdealistaNextData =
  props :: "Props option"

datatype js_error = TypeError

text \<open>\<open>nextData?.props?.pageProps?.searchData\<close> and its \<open>elementList\<close>.\<close>

definition searchDataOf :: "IdealistaNextData \<Rightarrow> IdealistaSearchData option" where
  "searchDataOf nextData =
     (case props nextData of
        None \<Rightarrow> None
      | Some p \<Rightarrow> (case pageProps p of
                    None \<Rightarrow> None
                  | Some pp \<Rightarrow> searchData pp))"

definition elementListOf :: "IdealistaNextData \<Rightarrow> element_list option" where
  "elementListOf nextData =
     (case searchDataOf nextData of None \<Rightarrow> None | Some sd \<Rightarrow> elementList sd)"

text \<open>The call of \<open>parsePropertyItem\<close> on one entry of the array, as it can raise.\<close>

definition tryParsePropertyItem ::
  "clock \<Rightarrow> nat \<Rightarrow> raw_element \<Rightarrow> string \<Rightarrow> js_error + (Property \<times> nat)" where
  "tryParsePropertyItem clk k el location' =
     (case el of
        JNull \<Rightarrow> Inl TypeError
      | JItem item \<Rightarrow> Inr (parsePropertyItem clk k item location'))"

text \<open>
  \<open>elementList.map(...)\<close> with the inner \<open>try\<close>/\<open>catch\<close>: an entry whose parse raises
  gives \<open>null\<close> (here \<open>None\<close>); the clock readings run through the entries in order.
\<close>

fun mapItems ::
  "clock \<Rightarrow> nat \<Rightarrow> raw_element list \<Rightarrow> string \<Rightarrow> Property option list \<times> nat" where
  "mapItems clk k [] location' = ([], k)"
| "mapItems clk k (el # els) location' =
     (case tryParsePropertyItem clk k el location' of
        Inl err \<Rightarrow>
          (case mapItems clk k els location' of (ps, k') \<Rightarrow> (None # ps, k'))
      | Inr (p, k1) \<Rightarrow>
          (case mapItems clk k1 els location' of (ps, k') \<Rightarrow> (Some p # ps, k')))"

text \<open>\<open>.filter((p) => p !== null)\<close>.\<close>

definition dropNulls :: "Property option list \<Rightarrow> Property list" where
  "dropNulls ps = concat (map (\<lambda>p. case p of None \<Rightarrow> [] | Some x \<Rightarrow> [x]) ps)"

text \<open>The body of the outer \<open>try\<close> of \<open>parseNextData\<close>, and \<open>parseNextData\<close> itself.\<close>

definition parseNextData_body ::
  "clock \<Rightarrow> nat \<Rightarrow> IdealistaNextData \<Rightarrow> string \<Rightarrow> js_error + (Property list \<times> nat)" where
  "parseNextData_body clk k nextData location' =
     (case elementListOf nextData of
        None \<Rightarrow> Inr ([], k)
      | Some NotAnArray \<Rightarrow> Inl TypeError
      | Some (ElementArray els) \<Rightarrow>
          if length els = 0 then Inr ([], k)
          else (case mapItems clk k els location' of
                  (ps, k') \<Rightarrow> Inr (dropNulls ps, k')))"

definition parseNextData ::
  "clock \<Rightarrow> nat \<Rightarrow> IdealistaNextData \<Rightarrow> string \<Rightarrow> js_error + (Property list \<times> nat)" where
  "parseNextData clk k nextData location' =
     (case parseNextData_body clk k nextData location' of
        Inl err \<Rightarrow> Inr ([], k)
      | Inr r \<Rightarrow> Inr r)"

section \<open>transformer.ts: amenities\<close>

record PropertyAmenities =
  has_parking :: bool
  has_garden :: bool
  has_balcony :: bool
  has_terrace :: bool
  has_pool :: bool
  has_elevator :: bool
  has_garage :: bool
  has_basement :: bool
  has_fireplace :: bool
  is_furnished :: bool
  is_new_construction :: bool
  is_luxury :: bool

text \<open>The term lists of \<open>extractAmenities\<close>, in the order of the source.\<close>

definition parking_terms :: "string list" where
  "parking_terms = [''parking'', ''garagem'', ''estacionamento'', ''garage'']"

definition garden_terms :: "string list" where
  "garden_terms = [''garden'', ''jardim'']"

definition balcony_terms :: "string list" where
  "balcony_terms = [''balcony'', ''balc'' @ [CHR 0xE3] @ ''o'', ''varanda'']"

definition terrace_terms :: "string list" where
  "terrace_terms = [''terrace'', ''terra'' @ [CHR 0xE7] @ ''o'', ''terrace'']"

definition pool_terms :: "string list" where
  "pool_terms = [''pool'', ''piscina'', ''swimming'']"

definition elevator_terms :: "string list" where
  "elevator_terms = [''elevator'', ''elevador'', ''lift'', ''ascensor'']"

definition garage_terms :: "string list" where
  "garage_terms = [''garage'', ''garagem'']"

definition basement_terms :: "string list" where
  "basement_terms = [''basement'', ''cave'', ''subsolo'']"

definition fireplace_terms :: "string list" where
  "fireplace_terms = [''fireplace'', ''lareira'', ''chimenea'']"

definition furnished_terms :: "string list" where
  "furnished_terms = [''furnished'', ''mobilado'', ''amueblado'']"

definition new_construction_terms :: "string list" where
  "new_construction_terms =
     [''new development'', ''nova constru'' @ [CHR 0xE7, CHR 0xE3] @ ''o'', ''obra nova'']"

definition luxury_terms :: "string list" where
  "luxury_terms = [''luxury'', ''luxo'', ''premium'']"

text \<open>\<open>featuresLower.some((f) => terms.some((term) => f.includes(term)))\<close>.\<close>

definition someIncludes :: "string list \<Rightarrow> string list \<Rightarrow> bool" where
  "someIncludes featuresLower terms =
     list_ex (\<lambda>f. list_ex (\<lambda>t. includes_str f t) terms) featuresLower"

definition extractAmenities :: "string list \<Rightarrow> PropertyAmenities" where
  "extractAmenities features' =
     (let featuresLower = map toLowerCase features' in
      \<lparr> has_parking = someIncludes featuresLower parking_terms,
        has_garden = someIncludes featuresLower garden_terms,
        has_balcony = someIncludes featuresLower balcony_terms,
        has_terrace = someIncludes featuresLower terrace_terms,
        has_pool = someIncludes featuresLower pool_terms,
        has_elevator = someIncludes featuresLower elevator_terms,
        has_garage = someIncludes featuresLower garage_terms,
        has_basement = someIncludes featuresLower basement_terms,
        has_fireplace = someIncludes featuresLower fireplace_terms,
        is_furnished = someIncludes featuresLower furnished_terms,
        is_new_construction = someIncludes featuresLower new_construction_terms,
        is_luxury = someIncludes featuresLower luxury_terms \<rparr>)"

section \<open>scraper.ts: extraction of the embedded state\<close>

text \<open>
  A thrown value is an \<open>Error\<close> with its message, or something else.
\<close>

datatype thrown = Error string | NotAnError

text \<open>The three messages \<open>extractNextData\<close> logs.\<close>

datatype extract_log = TagNotFound | TagEmpty | ExtractFailed thrown

text \<open>
  \<open>extractNextData\<close>. The two library calls are parameters: \<open>selectTag html\<close> stands for
  \<open>load(html)\<close> followed by \<open>$('#__NEXT_DATA__')\<close> and gives, for each matched element,
  what \<open>.html()\<close> returns for it (\<open>None\<close> is \<open>null\<close>); \<open>jsonParse\<close> stands for
  \<open>JSON.parse\<close>, whose result is cast to \<open>IdealistaNextData\<close> (\<open>None\<close> is the JSON
  value \<open>null\<close>). Either can raise. The result is the returned value and the messages
  logged.
\<close>

definition extractNextData_body ::
  "(string \<Rightarrow> thrown + string option list) \<Rightarrow> (string \<Rightarrow> thrown + IdealistaNextData option)
   \<Rightarrow> string \<Rightarrow> thrown + (IdealistaNextData option \<times> extract_log list)" where
  "extractNextData_body selectTag jsonParse html =
     (case selectTag html of
        Inl err \<Rightarrow> Inl err
      | Inr scriptTag \<Rightarrow>
          (case scriptTag of
             [] \<Rightarrow> Inr (None, [TagNotFound])
           | jsonText # others \<Rightarrow>
               if \<not> truthyS jsonText then Inr (None, [TagEmpty])
               else (case jsonParse (orElseS jsonText []) of
                       Inl err \<Rightarrow> Inl err
                     | Inr data \<Rightarrow> Inr (data, []))))"

definition extractNextData ::
  "(string \<Rightarrow> thrown + string option list) \<Rightarrow> (string \<Rightarrow> thrown + IdealistaNextData option)
   \<Rightarrow> string \<Rightarrow> thrown + (IdealistaNextData option \<times> extract_log list)" where
  "extractNextData selectTag jsonParse html =
     (case extractNextData_body selectTag jsonParse html of
        Inl err \<Rightarrow> Inr (None, [ExtractFailed err])
      | Inr r \<Rightarrow> Inr r)"

text \<open>
  A sample of the library's behaviour on three documents, for evaluating
  \<open>extractNextData\<close>: a page with no container, a page whose container holds text that
  is not JSON, and a page whose container holds \<open>{}\<close>.
\<close>

definition page_without_state :: string where
  "page_without_state = ''<html><body>challenge</body></html>''"

definition page_with_broken_state :: string where
  "page_with_broken_state = ''<script id=__NEXT_DATA__>{</script>''"

definition page_with_state :: string where
  "page_with_state = ''<script id=__NEXT_DATA__>{}</script>''"

definition sample_selectTag :: "string \<Rightarrow> thrown + string option list" where
  "sample_selectTag html =
     (if html = page_with_broken_state then Inr [Some ''{'']
      else if html = page_with_state then Inr [Some ''{}'']
      else Inr [])"

definition sample_jsonParse :: "string \<Rightarrow> thrown + IdealistaNextData option" where
  "sample_jsonParse txt =
     (if txt = ''{}'' then Inr (Some \<lparr> props = None \<rparr>)
      else Inl (Error ''Unexpected end of JSON input''))"

section \<open>scraper.ts: the crawl of one location\<close>

record ScrapeResult =
  properties :: "Property list"
  totalFound :: number
  currentPage :: number
  hasNextPage :: bool

text \<open>
  \<open>scrapePage\<close> drives the browser; the crawl sees only how each call ends: it returns a
  \<open>ScrapeResult\<close> or it throws. It is a parameter of the crawl, a function of the state
  of the world outside (browser, network, site) and the page number, for the fixed
  location and transaction type; so is \<open>pause\<close>, the random delay between two pages.
\<close>

type_synonym page_outcome = "thrown + ScrapeResult"

text \<open>
  How the \<open>for\<close> loop ends: by one of its three \<open>break\<close>s (each logs its own message:
  the limit was reached, no more pages are available, blocked by anti-bot) or by its
  condition \<open>page <= maxPages\<close> turning false.
\<close>

datatype loop_exit = LimitReached | NoMorePages | BlockedStop | PagesExhausted

text \<open>\<open>error instanceof Error && error.message.includes('blocked')\<close>.\<close>

definition isBlocked :: "thrown \<Rightarrow> bool" where
  "isBlocked err = (case err of Error msg \<Rightarrow> includes_str msg ''blocked'' | NotAnError \<Rightarrow> False)"

text \<open>\<open>limit && allProperties.length >= limit\<close>: a limit of 0 is falsy, so is an absent one.\<close>

definition limitReached :: "int option \<Rightarrow> nat \<Rightarrow> bool" where
  "limitReached lmt n = (case lmt of None \<Rightarrow> False | Some l \<Rightarrow> l \<noteq> 0 \<and> l \<le> int n)"

text \<open>\<open>xs.slice(0, l)\<close>: a negative end counts from the end of the array.\<close>

definition sliceTo :: "'a list \<Rightarrow> int \<Rightarrow> 'a list" where
  "sliceTo xs l = (if 0 \<le> l then take (nat l) xs else take (length xs - nat (- l)) xs)"

text \<open>The records a call of \<open>scrapePage\<close> adds to \<open>allProperties\<close>.\<close>

definition recordsOf :: "page_outcome \<Rightarrow> Property list" where
  "recordsOf out = (case out of Inl err \<Rightarrow> [] | Inr result \<Rightarrow> properties result)"

text \<open>
  The loop of \<open>scrapeLocation\<close>, from page \<open>page\<close> on: \<open>acc\<close> is \<open>allProperties\<close>,
  \<open>calls\<close> the calls of \<open>scrapePage\<close> made so far, each with its page number and its
  outcome, \<open>w\<close> the world.
\<close>

function scrapeLoop ::
  "('w \<Rightarrow> int \<Rightarrow> page_outcome \<times> 'w) \<Rightarrow> ('w \<Rightarrow> 'w) \<Rightarrow> int \<Rightarrow> int option \<Rightarrow> int
   \<Rightarrow> Property list \<Rightarrow> (int \<times> page_outcome) list \<Rightarrow> 'w
   \<Rightarrow> Property list \<times> (int \<times> page_outcome) list \<times> loop_exit \<times> 'w" where
  "scrapeLoop scrapePage pause maxPages' lmt page acc calls w =
     (if page \<le> maxPages' then
        (case scrapePage w page of
           (Inr result, w1) \<Rightarrow>
             (let acc1 = acc @ properties result;
                  calls1 = calls @ [(page, Inr result)]
              in if limitReached lmt (length acc1) then (acc1, calls1, LimitReached, w1)
                 else if \<not> hasNextPage result then (acc1, calls1, NoMorePages, w1)
                 else scrapeLoop scrapePage pause maxPages' lmt (page + 1) acc1 calls1
                        (if page < maxPages' then pause w1 else w1))
         | (Inl err, w1) \<Rightarrow>
             (let calls1 = calls @ [(page, Inl err)]
              in if isBlocked err then (acc, calls1, BlockedStop, w1)
                 else scrapeLoop scrapePage pause maxPages' lmt (page + 1) acc calls1 w1))
      else (acc, calls, PagesExhausted, w))"
  by pat_completeness auto
termination
  by (relation "measure (\<lambda>(scrapePage, pause, maxPages', lmt, page, acc, calls, w).
                   nat (maxPages' + 1 - page))") auto

text \<open>
  \<open>scrapeLocation\<close>: \<open>maxPages\<close> defaults to 5; the result is trimmed to the limit when
  one is set. The source returns \<open>finalProperties\<close>; the run also records the calls made,
  the way the loop ended and the world it left.
\<close>

record ScrapeOptions =
  maxPages :: "int option"
  limit :: "int option"

record 'w crawl_run =
  finalProperties :: "Property list"
  fetched :: "(int \<times> page_outcome) list"
  stopped_by :: loop_exit
  world_after :: 'w

definition scrapeLocation ::
  "('w \<Rightarrow> int \<Rightarrow> page_outcome \<times> 'w) \<Rightarrow> ('w \<Rightarrow> 'w) \<Rightarrow> ScrapeOptions \<Rightarrow> 'w \<Rightarrow> 'w crawl_run" where
  "scrapeLocation scrapePage pause options w =
     (let maxPages' = (case maxPages options of None \<Rightarrow> 5 | Some m \<Rightarrow> m);
          lmt = limit options
      in case scrapeLoop scrapePage pause maxPages' lmt 1 [] [] w of
           (allProperties, calls, how, w1) \<Rightarrow>
             \<lparr> finalProperties = (case lmt of
                                    None \<Rightarrow> allProperties
                                  | Some l \<Rightarrow> if l \<noteq> 0 then sliceTo allProperties l
                                             else allProperties),
               fetched = calls,
               stopped_by = how,
               world_after = w1 \<rparr>)"

section \<open>The rules of the specification, as tables\<close>

text \<open>
  Property-kind inference as the specification words it: an ordered table of kinds, each
  with its synonyms; the first kind of the table with a synonym contained in the
  lower-cased input wins, and no match gives \<open>other\<close>.
\<close>

definition kind_table :: "(string \<times> string list) list" where
  "kind_table =
     [(''apartment'', [''flat'', ''apartamento'', ''apartment'']),
      (''villa'', [''moradia'', ''villa'', ''chalet'']),
      (''house'', [''house'', ''casa'']),
      (''penthouse'', [''penthouse'', ''cobertura'']),
      (''duplex'', [''duplex'']),
      (''studio'', [''studio'', ''t0'']),
      (''loft'', [''loft'']),
      (''office'', [''office'', ''escrit'' @ [CHR 0xF3] @ ''rio'']),
      (''commercial'', [''premises'', ''loja'']),
      (''garage'', [''garage'', ''garagem'']),
      (''parking'', [''parking'', ''estacionamento'']),
      (''building'', [''building'', ''pr'' @ [CHR 0xE9] @ ''dio'']),
      (''land'', [''land'', ''terreno''])]"

definition kindMatches :: "string \<Rightarrow> string \<times> string list \<Rightarrow> bool" where
  "kindMatches s entry = list_ex (\<lambda>syn. includes_str (toLowerCase s) syn) (snd entry)"

fun firstMatch :: "(string \<times> string list) list \<Rightarrow> string \<Rightarrow> string" where
  "firstMatch [] s = ''other''"
| "firstMatch (entry # rest) s = (if kindMatches s entry then fst entry else firstMatch rest s)"

section \<open>Sample inputs\<close>

text \<open>The raw item with every field absent.\<close>

definition emptyItem :: IdealistaPropertyItem where
  "emptyItem =
     \<lparr> propertyCode = None, thumbnail = None, externalReference = None, floor_i = None,
       price_i = None, propertyType_i = None, operation = None, size_i = None,
       exterior = None, rooms_i = None, bathrooms_i = None, address_i = None,
       province = None, municipality = None, district = None, neighborhood = None,
       latitude = None, longitude = None, description_i = None, detailedType = None,
       newDevelopment = None, hasVideo = None, has3DTour = None, hasPlan = None,
       hasLift = None, priceInfo = None, detailedType_typology = None,
       suggestedTexts = None, hasParkingSpace = None, url_i = None,
       hasSwimmingPool = None, hasTerrace = None, hasGarden = None, labels = None \<rparr>"

text \<open>A clock that advances by one millisecond between two readings.\<close>

definition sample_clock :: clock where
  "sample_clock k = 1700000000000 + k"

text \<open>An embedded state whose search data holds the given \<open>elementList\<close>.\<close>

definition nextDataWith :: "element_list option \<Rightarrow> IdealistaNextData" where
  "nextDataWith els =
     \<lparr> props = Some \<lparr> pageProps = Some \<lparr> searchData =
         Some \<lparr> elementList = els, total = None, totalPages = None,
                currentPage_s = None, actualPage = None \<rparr> \<rparr> \<rparr> \<rparr>"

text \<open>A parsed property with the given identifier, and a page of such properties.\<close>

definition propertyWithId :: "string \<Rightarrow> Property" where
  "propertyWithId i =
     \<lparr> id_p = i, source = SOURCE, url = BASE_URL, title = ''Property in Portugal'',
       price = 0, currency = CURRENCY, propertyType = ''other'', transactionType = ''sale'',
       location = \<lparr> address = None, city = ''lisboa'', region = None, country = COUNTRY,
                    coordinates = None \<rparr>,
       details = \<lparr> bedrooms = None, bathrooms = None, sqm = None, floor_d = None,
                   rooms = None \<rparr>,
       features = [], images = [], description = None, scrapedAt = 0 \<rparr>"

definition pageOf :: "string list \<Rightarrow> bool \<Rightarrow> ScrapeResult" where
  "pageOf ids nextPage =
     \<lparr> properties = map propertyWithId ids, totalFound = 0, currentPage = 1,
       hasNextPage = nextPage \<rparr>"


definition blocking_site :: "nat \<Rightarrow> int \<Rightarrow> page_outcome \<times> nat" where
  "blocking_site w page =
     (if page = 1 then (Inr (pageOf [''a'', ''b''] True), Suc w)
      else if page = 2 then (Inl (Error ''Request blocked by DataDome''), Suc w)
      else (Inr (pageOf [''z''] True), Suc w))"

definition flaky_site :: "nat \<Rightarrow> int \<Rightarrow> page_outcome \<times> nat" where
  "flaky_site w page =
     (if page = 1 then (Inr (pageOf [''a''] True), Suc w)
      else if page = 2 then (Inl (Error ''Timeout 60000ms exceeded''), Suc w)
      else (Inr (pageOf [''c''] False), Suc w))"

section \<open>Auxiliary notions for the proofs\<close>

text \<open>
  The invariant of \<open>allProperties\<close> at the head of the loop: it is empty or still short
  of the limit, so that trimming it to the limit changes nothing.
\<close>

definition withinLimit :: "int option \<Rightarrow> Property list \<Rightarrow> bool" where
  "withinLimit lmt acc = (acc = [] \<or> \<not> limitReached lmt (length acc))"

text \<open>The value \<open>extractNextData\<close> returns to its caller, without the log.\<close>

definition returnedData ::
  "thrown + (IdealistaNextData option \<times> extract_log list) \<Rightarrow> IdealistaNextData option" where
  "returnedData res = (case res of Inl err \<Rightarrow> None | Inr r \<Rightarrow> fst r)"

text \<open>The records of the well-formed entries of an array, the clock running through them.\<close>

fun parsedItems :: "clock \<Rightarrow> nat \<Rightarrow> raw_element list \<Rightarrow> string \<Rightarrow> Property list" where
  "parsedItems clk k [] location' = []"
| "parsedItems clk k (JNull # els) location' = parsedItems clk k els location'"
| "parsedItems clk k (JItem item # els) location' =
     fst (parsePropertyItem clk k item location')
       # parsedItems clk (snd (parsePropertyItem clk k item location')) els location'"





section \<open>Auxiliary lemmas\<close>

declare scrapeLoop.simps [simp del]

lemma startsWith_iff: "startsWith s t \<longleftrightarrow> (\<exists>v. s = t @ v)"
  by (induction s t rule: startsWith.induct) auto

lemma includes_str_iff: "includes_str s t \<longleftrightarrow> (\<exists>u v. s = u @ t @ v)"
proof (induction s)
  case Nil
  then show ?case by (auto simp: startsWith_iff)
next
  case (Cons a s)
  show ?case
  proof
    assume "includes_str (a # s) t"
    then consider "startsWith (a # s) t" | "includes_str s t" by auto
    then show "\<exists>u v. a # s = u @ t @ v"
    proof cases
      case 1
      then obtain v where "a # s = t @ v" by (auto simp: startsWith_iff)
      then have "a # s = [] @ t @ v" by simp
      then show ?thesis by blast
    next
      case 2
      then obtain u v where "s = u @ t @ v" using Cons.IH by blast
      then have "a # s = (a # u) @ t @ v" by simp
      then show ?thesis by blast
    qed
  next
    assume "\<exists>u v. a # s = u @ t @ v"
    then obtain u v where e: "a # s = u @ t @ v" by blast
    show "includes_str (a # s) t"
    proof (cases u)
      case Nil
      then have "startsWith (a # s) t" using e unfolding startsWith_iff by auto
      then show ?thesis by simp
    next
      case (Cons b u')
      then have "s = u' @ t @ v" using e by simp
      then show ?thesis using Cons.IH by auto
    qed
  qed
qed


lemma someIncludes_iff:
  "someIncludes fs ts \<longleftrightarrow> (\<exists>f \<in> set fs. \<exists>t \<in> set ts. \<exists>u v. f = u @ t @ v)"
  by (auto simp: someIncludes_def list_ex_iff includes_str_iff)

lemma mapPropertyType_table:
  "mapPropertyType pt ty = firstMatch kind_table (orElseS (orS pt ty) [])"
  by (simp add: mapPropertyType_def kind_table_def kindMatches_def Let_def)

lemma firstMatch_other:
  "\<forall>e \<in> set tbl. fst e \<noteq> ''other'' \<Longrightarrow>
   firstMatch tbl s = ''other'' \<longleftrightarrow> \<not> list_ex (kindMatches s) tbl"
  by (induction tbl) auto

lemma firstMatch_first:
  "firstMatch tbl s = k \<Longrightarrow> k \<noteq> ''other'' \<Longrightarrow>
   \<exists>pre e post. tbl = pre @ e # post \<and> fst e = k \<and> kindMatches s e \<and> \<not> list_ex (kindMatches s) pre"
proof (induction tbl)
  case Nil
  then show ?case by simp
next
  case (Cons e tbl)
  show ?case
  proof (cases "kindMatches s e")
    case True
    then have "fst e = k" using Cons.prems by simp
    then have "e # tbl = [] @ e # tbl \<and> fst e = k \<and> kindMatches s e \<and> \<not> list_ex (kindMatches s) []"
      using True by simp
    then show ?thesis by blast
  next
    case False
    then have "firstMatch tbl s = k" using Cons.prems by simp
    then obtain pre e' post where h: "tbl = pre @ e' # post" "fst e' = k" "kindMatches s e'"
      "\<not> list_ex (kindMatches s) pre" using Cons.IH Cons.prems(2) by blast
    then have "e # tbl = (e # pre) @ e' # post \<and> fst e' = k \<and> kindMatches s e' \<and> \<not> list_ex (kindMatches s) (e # pre)"
      using False by simp
    then show ?thesis by blast
  qed
qed

lemma scrapeLoop_rule:
  assumes exhausted: "\<And>page acc calls w. \<not> page \<le> mp \<Longrightarrow>
      Q page acc calls w (acc, calls, PagesExhausted, w)"
    and limit: "\<And>page acc calls w r w1. page \<le> mp \<Longrightarrow> sp w page = (Inr r, w1) \<Longrightarrow>
      limitReached lmt (length (acc @ properties r)) \<Longrightarrow>
      Q page acc calls w (acc @ properties r, calls @ [(page, Inr r)], LimitReached, w1)"
    and nomore: "\<And>page acc calls w r w1. page \<le> mp \<Longrightarrow> sp w page = (Inr r, w1) \<Longrightarrow>
      \<not> limitReached lmt (length (acc @ properties r)) \<Longrightarrow> \<not> hasNextPage r \<Longrightarrow>
      Q page acc calls w (acc @ properties r, calls @ [(page, Inr r)], NoMorePages, w1)"
    and blocked: "\<And>page acc calls w e w1. page \<le> mp \<Longrightarrow> sp w page = (Inl e, w1) \<Longrightarrow>
      isBlocked e \<Longrightarrow> Q page acc calls w (acc, calls @ [(page, Inl e)], BlockedStop, w1)"
    and next_ok: "\<And>page acc calls w r w1 res. page \<le> mp \<Longrightarrow> sp w page = (Inr r, w1) \<Longrightarrow>
      \<not> limitReached lmt (length (acc @ properties r)) \<Longrightarrow> hasNextPage r \<Longrightarrow>
      Q (page + 1) (acc @ properties r) (calls @ [(page, Inr r)])
        (if page < mp then pause w1 else w1) res \<Longrightarrow>
      Q page acc calls w res"
    and next_err: "\<And>page acc calls w e w1 res. page \<le> mp \<Longrightarrow> sp w page = (Inl e, w1) \<Longrightarrow>
      \<not> isBlocked e \<Longrightarrow> Q (page + 1) acc (calls @ [(page, Inl e)]) w1 res \<Longrightarrow>
      Q page acc calls w res"
  shows "Q page acc calls w (scrapeLoop sp pause mp lmt page acc calls w)"
  using assms
proof (induction sp pause mp lmt page acc calls w rule: scrapeLoop.induct)
  case (1 sp pause mp lmt page acc calls w)
  show ?case
  proof (cases "page \<le> mp")
    case False
    then show ?thesis using "1.prems"(1) by (simp add: scrapeLoop.simps)
  next
    case le: True
    obtain out w1 where sp: "sp w page = (out, w1)" by (cases "sp w page")
    show ?thesis
    proof (cases out)
      case (Inr r)
      show ?thesis
      proof (cases "limitReached lmt (length (acc @ properties r))")
        case True
        then show ?thesis using "1.prems"(2)[OF le sp[unfolded Inr] True] le sp Inr
          by (simp add: scrapeLoop.simps[of sp pause mp lmt page] Let_def)
      next
        case nl: False
        show ?thesis
        proof (cases "hasNextPage r")
          case False
          then show ?thesis using "1.prems"(3)[OF le sp[unfolded Inr] nl False] le sp Inr nl
            by (simp add: scrapeLoop.simps[of sp pause mp lmt page] Let_def)
        next
          case True
          then have nn: "\<not> \<not> hasNextPage r" by simp
          have ih: "Q (page + 1) (acc @ properties r) (calls @ [(page, Inr r)])
                      (if page < mp then pause w1 else w1)
                      (scrapeLoop sp pause mp lmt (page + 1) (acc @ properties r)
                         (calls @ [(page, Inr r)]) (if page < mp then pause w1 else w1))"
            by (rule "1.IH"(2)[OF le sp[symmetric] Inr refl refl nl nn "1.prems"])
          show ?thesis
            using "1.prems"(5)[OF le sp[unfolded Inr] nl True ih] le sp Inr nl True
            by (simp add: scrapeLoop.simps[of sp pause mp lmt page] Let_def)
        qed
      qed
    next
      case (Inl e)
      show ?thesis
      proof (cases "isBlocked e")
        case True
        then show ?thesis using "1.prems"(4)[OF le sp[unfolded Inl] True] le sp Inl
          by (simp add: scrapeLoop.simps[of sp pause mp lmt page] Let_def)
      next
        case False
        have ih: "Q (page + 1) acc (calls @ [(page, Inl e)]) w1
                    (scrapeLoop sp pause mp lmt (page + 1) acc (calls @ [(page, Inl e)]) w1)"
          by (rule "1.IH"(1)[OF le sp[symmetric] Inl refl False "1.prems"])
        show ?thesis
          using "1.prems"(6)[OF le sp[unfolded Inl] False ih] le sp Inl False
          by (simp add: scrapeLoop.simps[of sp pause mp lmt page] Let_def)
      qed
    qed
  qed
qed


lemma scrapeLoop_calls:
  "case scrapeLoop sp pause mp lmt page acc calls w of
     (acc', calls', how, w') \<Rightarrow>
       \<exists>new. calls' = calls @ new
           \<and> acc' = acc @ concat (map (\<lambda>c. recordsOf (snd c)) new)
           \<and> map fst new = [page..page + int (length new) - 1]
           \<and> page + int (length new) - 1 \<le> max mp (page - 1)"
proof (rule scrapeLoop_rule[where Q = "\<lambda>page acc calls w res. case res of
     (acc', calls', how, w') \<Rightarrow>
       \<exists>new. calls' = calls @ new
           \<and> acc' = acc @ concat (map (\<lambda>c. recordsOf (snd c)) new)
           \<and> map fst new = [page..page + int (length new) - 1]
           \<and> page + int (length new) - 1 \<le> max mp (page - 1)"], goal_cases)
  case (1 page acc calls w)
  then show ?case by simp
next
  case (2 page acc calls w r w1)
  then show ?case by (simp add: recordsOf_def)
next
  case (3 page acc calls w r w1)
  then show ?case by (simp add: recordsOf_def)
next
  case (4 page acc calls w e w1)
  then show ?case by (simp add: recordsOf_def)
next
  case (5 page acc calls w r w1 res)
  obtain acc' calls' how w' where res: "res = (acc', calls', how, w')" by (cases res)
  from 5(5) res obtain new where n: "calls' = (calls @ [(page, Inr r)]) @ new"
      "acc' = (acc @ properties r) @ concat (map (\<lambda>c. recordsOf (snd c)) new)"
      "map fst new = [page + 1..page + 1 + int (length new) - 1]"
      "page + 1 + int (length new) - 1 \<le> max mp (page + 1 - 1)"
    by auto
  have "calls' = calls @ ((page, Inr r) # new)
      \<and> acc' = acc @ concat (map (\<lambda>c. recordsOf (snd c)) ((page, Inr r) # new))
      \<and> map fst ((page, Inr r :: page_outcome) # new)
          = [page..page + int (length ((page, Inr r :: page_outcome) # new)) - 1]
      \<and> page + int (length ((page, Inr r :: page_outcome) # new)) - 1 \<le> max mp (page - 1)"
    using n 5(1) by (simp add: recordsOf_def upto_rec1[of page])
  then show ?case unfolding res by (simp only: prod.case) blast
next
  case (6 page acc calls w e w1 res)
  obtain acc' calls' how w' where res: "res = (acc', calls', how, w')" by (cases res)
  from 6(4) res obtain new where n: "calls' = (calls @ [(page, Inl e)]) @ new"
      "acc' = acc @ concat (map (\<lambda>c. recordsOf (snd c)) new)"
      "map fst new = [page + 1..page + 1 + int (length new) - 1]"
      "page + 1 + int (length new) - 1 \<le> max mp (page + 1 - 1)"
    by auto
  have "calls' = calls @ ((page, Inl e) # new)
      \<and> acc' = acc @ concat (map (\<lambda>c. recordsOf (snd c)) ((page, Inl e) # new))
      \<and> map fst ((page, Inl e :: page_outcome) # new)
          = [page..page + int (length ((page, Inl e :: page_outcome) # new)) - 1]
      \<and> page + int (length ((page, Inl e :: page_outcome) # new)) - 1 \<le> max mp (page - 1)"
    using n 6(1) by (simp add: recordsOf_def upto_rec1[of page])
  then show ?case unfolding res by (simp only: prod.case) blast
qed

lemma scrapeLoop_blocked_last:
  "case scrapeLoop sp pause mp lmt page acc calls w of
     (acc', calls', how, w') \<Rightarrow>
       \<forall>n e. (n, Inl e) \<in> set calls' \<longrightarrow> isBlocked e \<longrightarrow>
          (n, Inl e) \<in> set calls \<or> (last calls' = (n, Inl e) \<and> how = BlockedStop)"
  by (rule scrapeLoop_rule[where Q = "\<lambda>page acc calls w res. case res of
     (acc', calls', how, w') \<Rightarrow>
       \<forall>n e. (n, Inl e) \<in> set calls' \<longrightarrow> isBlocked e \<longrightarrow>
          (n, Inl e) \<in> set calls \<or> (last calls' = (n, Inl e) \<and> how = BlockedStop)"])
     auto

lemma scrapeLoop_withinLimit:
  "case scrapeLoop sp pause mp lmt page acc calls w of
     (acc', calls', how, w') \<Rightarrow>
       withinLimit lmt acc \<longrightarrow> how \<noteq> LimitReached \<longrightarrow> withinLimit lmt acc'"
  by (rule scrapeLoop_rule[where Q = "\<lambda>page acc calls w res. case res of
     (acc', calls', how, w') \<Rightarrow>
       withinLimit lmt acc \<longrightarrow> how \<noteq> LimitReached \<longrightarrow> withinLimit lmt acc'"])
     (auto simp: withinLimit_def)

lemma sliceTo_withinLimit:
  "withinLimit (Some l) acc \<Longrightarrow> l \<noteq> 0 \<Longrightarrow> sliceTo acc l = acc"
  by (auto simp: withinLimit_def limitReached_def sliceTo_def)

lemma firstMatch_lower:
  "toLowerCase s' = toLowerCase s \<Longrightarrow> firstMatch tbl s' = firstMatch tbl s"
  by (induction tbl) (simp_all add: kindMatches_def)

lemma kind_table_no_other: "\<forall>e \<in> set kind_table. fst e \<noteq> ''other''"
  by (simp add: kind_table_def)

lemma orElseS_nonempty: "d \<noteq> [] \<Longrightarrow> orElseS a d \<noteq> []"
  by (simp add: orElseS_def split: option.splits)

lemma orElseN_nonneg:
  "(\<And>x. a = Some x \<Longrightarrow> 0 \<le> x) \<Longrightarrow> 0 \<le> d \<Longrightarrow> 0 \<le> orElseN a d"
  by (simp add: orElseN_def split: option.splits)


lemma distinct_filter_eq_one:
  "distinct xs \<Longrightarrow> a \<in> set xs \<Longrightarrow> length (filter (\<lambda>x. x = a) xs) = 1"
proof (induction xs)
  case Nil
  then show ?case by simp
next
  case (Cons x xs)
  show ?case
  proof (cases "x = a")
    case True
    then have "a \<notin> set xs" using Cons.prems by simp
    then have "filter (\<lambda>x. x = a) xs = []" by (auto simp: filter_empty_conv)
    then show ?thesis using True by simp
  next
    case False
    then show ?thesis using Cons by auto
  qed
qed

lemma scrapeLocation_run:
  obtains acc calls how w1 where
    "scrapeLoop sp pause (case maxPages opts of None \<Rightarrow> 5 | Some m \<Rightarrow> m) (limit opts) 1 [] [] w
       = (acc, calls, how, w1)"
    "fetched (scrapeLocation sp pause opts w) = calls"
    "stopped_by (scrapeLocation sp pause opts w) = how"
    "finalProperties (scrapeLocation sp pause opts w)
       = (case limit opts of None \<Rightarrow> acc
          | Some l \<Rightarrow> if l \<noteq> 0 then sliceTo acc l else acc)"
    "acc = concat (map (\<lambda>c. recordsOf (snd c)) calls)"
    "map fst calls = [1..int (length calls)]"
    "int (length calls) \<le> max 0 (case maxPages opts of None \<Rightarrow> 5 | Some m \<Rightarrow> m)"
proof -
  let ?mp = "case maxPages opts of None \<Rightarrow> 5 | Some m \<Rightarrow> m"
  obtain acc calls how w1 where
    e: "scrapeLoop sp pause ?mp (limit opts) 1 [] [] w = (acc, calls, how, w1)"
    by (metis prod_cases4)
  from scrapeLoop_calls[where sp = sp and pause = pause and mp = ?mp
         and lmt = "limit opts" and page = 1 and acc = "[]" and calls = "[]" and w = w]
  obtain new where n: "calls = [] @ new"
      "acc = [] @ concat (map (\<lambda>c. recordsOf (snd c)) new)"
      "map fst new = [1..1 + int (length new) - 1]"
      "1 + int (length new) - 1 \<le> max ?mp (1 - 1)"
    unfolding e by auto
  have a: "acc = concat (map (\<lambda>c. recordsOf (snd c)) calls)" using n by simp
  have b: "map fst calls = [1..int (length calls)]" using n by simp
  have c: "int (length calls) \<le> max 0 ?mp" using n by (simp add: max.commute)
  show ?thesis
    by (rule that[OF e _ _ _ a b c]) (simp_all add: scrapeLocation_def Let_def e)
qed

lemma upto_from_one_facts:
  fixes xs :: "(int \<times> 'a) list"
  assumes "map fst xs = [1..int (length xs)]"
  shows "xs \<noteq> [] \<longrightarrow> fst (hd xs) = 1"
    and "\<forall>i. Suc i < length xs \<longrightarrow> fst (xs ! Suc i) = fst (xs ! i) + 1"
    and "\<forall>c \<in> set xs. 1 \<le> fst c \<and> fst c \<le> int (length xs)"
proof -
  have nth: "fst (xs ! i) = 1 + int i" if "i < length xs" for i
  proof -
    have "fst (xs ! i) = map fst xs ! i" using that by simp
    also have "\<dots> = [1..int (length xs)] ! i" using assms by simp
    also have "\<dots> = 1 + int i" using that by (simp add: nth_upto)
    finally show ?thesis .
  qed
  show "xs \<noteq> [] \<longrightarrow> fst (hd xs) = 1"
  proof
    assume "xs \<noteq> []"
    then have "hd xs = xs ! 0" and "0 < length xs" by (simp_all add: hd_conv_nth)
    then show "fst (hd xs) = 1" using nth[of 0] by simp
  qed
  show "\<forall>i. Suc i < length xs \<longrightarrow> fst (xs ! Suc i) = fst (xs ! i) + 1"
    using nth by simp
  show "\<forall>c \<in> set xs. 1 \<le> fst c \<and> fst c \<le> int (length xs)"
  proof
    fix c assume "c \<in> set xs"
    then have "fst c \<in> set (map fst xs)" by simp
    then have "fst c \<in> set [1..int (length xs)]" using assms by simp
    then show "1 \<le> fst c \<and> fst c \<le> int (length xs)" by simp
  qed
qed

lemma last_upto_one: "1 \<le> m \<Longrightarrow> last [1..m] = m"
  by (simp add: upto_rec2[of 1 m])

lemma dropNulls_mapItems:
  "dropNulls (fst (mapItems clk k els loc)) = parsedItems clk k els loc"
proof (induction els arbitrary: k)
  case Nil
  then show ?case by (simp add: dropNulls_def)
next
  case (Cons el els)
  show ?case
  proof (cases el)
    case JNull
    then show ?thesis using Cons.IH[of k]
      by (simp add: tryParsePropertyItem_def dropNulls_def split_def)
  next
    case (JItem item)
    then show ?thesis using Cons.IH[of "snd (parsePropertyItem clk k item loc)"]
      by (simp add: tryParsePropertyItem_def dropNulls_def split_def)
  qed
qed

lemma parsedItems_skip_null:
  "parsedItems clk k (xs @ JNull # ys) loc = parsedItems clk k (xs @ ys) loc"
proof (induction xs arbitrary: k)
  case Nil
  then show ?case by simp
next
  case (Cons x xs)
  then show ?case by (cases x) simp_all
qed

lemma mapItems_clock_skip_null:
  "snd (mapItems clk k (xs @ JNull # ys) loc) = snd (mapItems clk k (xs @ ys) loc)"
proof (induction xs arbitrary: k)
  case Nil
  then show ?case by (simp add: tryParsePropertyItem_def split_def)
next
  case (Cons x xs)
  show ?case
  proof (cases x)
    case JNull
    then show ?thesis using Cons.IH[of k]
      by (simp add: tryParsePropertyItem_def split_def)
  next
    case (JItem item)
    then show ?thesis using Cons.IH[of "snd (parsePropertyItem clk k item loc)"]
      by (simp add: tryParsePropertyItem_def split_def)
  qed
qed

lemma parsedItems_length:
  "length (parsedItems clk k els loc) = length (filter (\<lambda>el. el \<noteq> JNull) els)"
proof (induction els arbitrary: k)
  case Nil
  then show ?case by simp
next
  case (Cons x xs)
  then show ?case by (cases x) simp_all
qed

lemma parseNextData_array:
  assumes "elementListOf nd = Some (ElementArray els)"
  shows "parseNextData clk k nd loc
           = Inr (parsedItems clk k els loc, snd (mapItems clk k els loc))"
proof (cases "els = []")
  case True
  then show ?thesis using assms
    by (simp add: parseNextData_def parseNextData_body_def)
next
  case False
  then have "parseNextData_body clk k nd loc
      = Inr (dropNulls (fst (mapItems clk k els loc)), snd (mapItems clk k els loc))"
    using assms by (simp add: parseNextData_body_def split_def del: mapItems.simps)
  then show ?thesis
    by (simp add: parseNextData_def dropNulls_mapItems del: mapItems.simps)
qed

declare showNat.simps [simp del]
















section \<open>The claims\<close>



text \<open>
  C3, as stated, fails: for the feature list \<open>Piscina privada\<close>, \<open>Garagem\<close> the flag
  \<open>has_parking\<close> is true as well, because \<open>garagem\<close> is also a parking term.
\<close>

theorem extractAmenities_pool_garage_counterexample:
  "has_parking (extractAmenities [''Piscina privada'', ''Garagem''])"
  by code_simp

text \<open>
  C3, amended. For the feature list \<open>Piscina privada\<close>, \<open>Garagem\<close> amenity inference
  yields \<open>has_pool\<close>, \<open>has_garage\<close> and \<open>has_parking\<close> true and every other flag
  false. In general each flag is true exactly when some lower-cased feature label contains
  some synonym of that amenity's term list, independently per amenity.
\<close>

theorem extractAmenities_rule:
  "extractAmenities [''Piscina privada'', ''Garagem''] =
     \<lparr> has_parking = True, has_garden = False, has_balcony = False, has_terrace = False,
       has_pool = True, has_elevator = False, has_garage = True, has_basement = False,
       has_fireplace = False, is_furnished = False, is_new_construction = False,
       is_luxury = False \<rparr>
   \<and> has_parking (extractAmenities fs)
       = (\<exists>f \<in> set fs. \<exists>t \<in> set parking_terms. \<exists>u v. toLowerCase f = u @ t @ v)
   \<and> has_garden (extractAmenities fs)
       = (\<exists>f \<in> set fs. \<exists>t \<in> set garden_terms. \<exists>u v. toLowerCase f = u @ t @ v)
   \<and> has_balcony (extractAmenities fs)
       = (\<exists>f \<in> set fs. \<exists>t \<in> set balcony_terms. \<exists>u v. toLowerCase f = u @ t @ v)
   \<and> has_terrace (extractAmenities fs)
       = (\<exists>f \<in> set fs. \<exists>t \<in> set terrace_terms. \<exists>u v. toLowerCase f = u @ t @ v)
   \<and> has_pool (extractAmenities fs)
       = (\<exists>f \<in> set fs. \<exists>t \<in> set pool_terms. \<exists>u v. toLowerCase f = u @ t @ v)
   \<and> has_elevator (extractAmenities fs)
       = (\<exists>f \<in> set fs. \<exists>t \<in> set elevator_terms. \<exists>u v. toLowerCase f = u @ t @ v)
   \<and> has_garage (extractAmenities fs)
       = (\<exists>f \<in> set fs. \<exists>t \<in> set garage_terms. \<exists>u v. toLowerCase f = u @ t @ v)
   \<and> has_basement (extractAmenities fs)
       = (\<exists>f \<in> set fs. \<exists>t \<in> set basement_terms. \<exists>u v. toLowerCase f = u @ t @ v)
   \<and> has_fireplace (extractAmenities fs)
       = (\<exists>f \<in> set fs. \<exists>t \<in> set fireplace_terms. \<exists>u v. toLowerCase f = u @ t @ v)
   \<and> is_furnished (extractAmenities fs)
       = (\<exists>f \<in> set fs. \<exists>t \<in> set furnished_terms. \<exists>u v. toLowerCase f = u @ t @ v)
   \<and> is_new_construction (extractAmenities fs)
       = (\<exists>f \<in> set fs. \<exists>t \<in> set new_construction_terms. \<exists>u v. toLowerCase f = u @ t @ v)
   \<and> is_luxury (extractAmenities fs)
       = (\<exists>f \<in> set fs. \<exists>t \<in> set luxury_terms. \<exists>u v. toLowerCase f = u @ t @ v)"
proof -
  have ex: "extractAmenities [''Piscina privada'', ''Garagem''] =
     \<lparr> has_parking = True, has_garden = False, has_balcony = False, has_terrace = False,
       has_pool = True, has_elevator = False, has_garage = True, has_basement = False,
       has_fireplace = False, is_furnished = False, is_new_construction = False,
       is_luxury = False \<rparr>"
    by code_simp
  have rule: "someIncludes (map toLowerCase fs) ts
      = (\<exists>f \<in> set fs. \<exists>t \<in> set ts. \<exists>u v. toLowerCase f = u @ t @ v)" for ts
    by (simp add: someIncludes_iff)
  show ?thesis
    unfolding ex by (simp add: extractAmenities_def Let_def rule)
qed

text \<open>
  C4. Property-kind inference is a case-insensitive substring match against a table in
  the order apartment, villa, house, penthouse, duplex, studio, loft, office, commercial,
  garage, parking, building, land: \<open>mapPropertyType\<close> returns, for every input, what the
  first-match rule over \<open>kind_table\<close> returns; it returns \<open>other\<close> exactly when no
  kind matches; when it returns a kind, that kind matches and no earlier kind of the
  table does; and two inputs with the same lower-cased form give the same kind.
\<close>

theorem mapPropertyType_first_match:
  "map fst kind_table =
     [''apartment'', ''villa'', ''house'', ''penthouse'', ''duplex'', ''studio'', ''loft'',
      ''office'', ''commercial'', ''garage'', ''parking'', ''building'', ''land'']
   \<and> mapPropertyType pt ty = firstMatch kind_table (orElseS (orS pt ty) [])
   \<and> (mapPropertyType pt ty = ''other''
        \<longleftrightarrow> \<not> list_ex (kindMatches (orElseS (orS pt ty) [])) kind_table)
   \<and> (mapPropertyType pt ty \<noteq> ''other'' \<longrightarrow>
        (\<exists>before entry after. kind_table = before @ entry # after
            \<and> mapPropertyType pt ty = fst entry
            \<and> kindMatches (orElseS (orS pt ty) []) entry
            \<and> \<not> list_ex (kindMatches (orElseS (orS pt ty) [])) before))
   \<and> (\<forall>s s'. toLowerCase s' = toLowerCase s \<longrightarrow>
        mapPropertyType (Some s') None = mapPropertyType (Some s) None)"
proof -
  let ?s = "orElseS (orS pt ty) []"
  have a: "map fst kind_table =
     [''apartment'', ''villa'', ''house'', ''penthouse'', ''duplex'', ''studio'', ''loft'',
      ''office'', ''commercial'', ''garage'', ''parking'', ''building'', ''land'']"
    by (simp add: kind_table_def)
  have b: "mapPropertyType pt ty = firstMatch kind_table (orElseS (orS pt ty) [])" for pt ty
    by (rule mapPropertyType_table)
  have c: "mapPropertyType pt ty = ''other'' \<longleftrightarrow> \<not> list_ex (kindMatches ?s) kind_table"
    unfolding b by (rule firstMatch_other[OF kind_table_no_other])
  have d: "mapPropertyType pt ty \<noteq> ''other'' \<longrightarrow>
        (\<exists>before entry after. kind_table = before @ entry # after
            \<and> mapPropertyType pt ty = fst entry
            \<and> kindMatches ?s entry
            \<and> \<not> list_ex (kindMatches ?s) before)"
  proof
    assume ne: "mapPropertyType pt ty \<noteq> ''other''"
    from firstMatch_first[OF b[symmetric] ne]
    obtain pre e post where "kind_table = pre @ e # post" "fst e = mapPropertyType pt ty"
      "kindMatches ?s e" "\<not> list_ex (kindMatches ?s) pre" by blast
    then have "kind_table = pre @ e # post \<and> mapPropertyType pt ty = fst e
        \<and> kindMatches ?s e \<and> \<not> list_ex (kindMatches ?s) pre" by simp
    then show "\<exists>before entry after. kind_table = before @ entry # after
            \<and> mapPropertyType pt ty = fst entry
            \<and> kindMatches ?s entry
            \<and> \<not> list_ex (kindMatches ?s) before" by blast
  qed
  have e: "\<forall>s s'. toLowerCase s' = toLowerCase s \<longrightarrow>
        mapPropertyType (Some s') None = mapPropertyType (Some s) None"
  proof (intro allI impI)
    fix s s' :: string
    assume l: "toLowerCase s' = toLowerCase s"
    then have "s' = [] \<longleftrightarrow> s = []" by (auto simp: toLowerCase_def)
    then have "toLowerCase (orElseS (orS (Some s') None) []) = toLowerCase (orElseS (orS (Some s) None) [])"
      using l by (auto simp: orElseS_def orS_def truthyS_def)
    then show "mapPropertyType (Some s') None = mapPropertyType (Some s) None"
      unfolding b by (rule firstMatch_lower)
  qed
  show ?thesis
    apply (rule conjI, rule a)
    apply (rule conjI, rule b)
    apply (rule conjI, rule c)
    apply (rule conjI, rule d)
    apply (rule e)
    done
qed

text \<open>
  The theorem at sample inputs: \<open>Penthouse\<close> contains \<open>house\<close>, which stands earlier in
  the table than \<open>penthouse\<close>.
\<close>

theorem mapPropertyType_first_match_witness:
  "mapPropertyType (Some ''Penthouse'') None = ''house''
   \<and> mapPropertyType (Some ''castle'') None = ''other''
   \<and> mapPropertyType (Some ''FLAT'') None = mapPropertyType (Some ''flat'') None
   \<and> mapPropertyType None (Some ''Garagem'') = ''garage''"
proof -
  have s1: "orElseS (orS (Some ''Penthouse'') None) [] = ''Penthouse''"
    by code_simp
  have s2: "orElseS (orS (Some ''castle'') None) [] = ''castle''"
    by code_simp
  have s3: "orElseS (orS None (Some ''Garagem'')) [] = ''Garagem''"
    by code_simp
  have f1: "firstMatch kind_table ''Penthouse'' = ''house''"
    by code_simp
  have f2: "firstMatch kind_table ''castle'' = ''other''"
    by code_simp
  have f3: "firstMatch kind_table ''Garagem'' = ''garage''"
    by code_simp
  have l: "toLowerCase ''FLAT'' = toLowerCase ''flat''" by code_simp
  note t1 = mapPropertyType_first_match[of "Some ''Penthouse''" None]
  note t2 = mapPropertyType_first_match[of "Some ''castle''" None]
  note t3 = mapPropertyType_first_match[of None "Some ''Garagem''"]
  have w1: "mapPropertyType (Some ''Penthouse'') None = ''house''"
    using t1[THEN conjunct2, THEN conjunct1] s1 f1 by simp
  have w2: "mapPropertyType (Some ''castle'') None = ''other''"
    using t2[THEN conjunct2, THEN conjunct1] s2 f2 by simp
  have w3: "mapPropertyType (Some ''FLAT'') None = mapPropertyType (Some ''flat'') None"
    using t1[THEN conjunct2, THEN conjunct2, THEN conjunct2, THEN conjunct2] l by blast
  have w4: "mapPropertyType None (Some ''Garagem'') = ''garage''"
    using t3[THEN conjunct2, THEN conjunct1] s3 f3 by simp
  show ?thesis by (rule conjI[OF w1 conjI[OF w2 conjI[OF w3 w4]]])
qed

text \<open>
  C1, as stated, fails: a raw item whose price is -5 gives a record whose price is -5.
\<close>

theorem parsePropertyItem_negative_price_counterexample:
  "price (fst (parsePropertyItem sample_clock 0 (emptyItem\<lparr>price_i := Some (- 5)\<rparr>) ''lisboa'')) < 0"
  by (simp add: parsePropertyItem_def Let_def emptyItem_def orElseN_def)

text \<open>
  C1, amended. For every raw item, however incomplete, the record has a non-empty
  identifier. Its price is \<open>item.price\<close> when that is non-zero, else
  \<open>item.priceInfo.price.amount\<close> when that is non-zero, else 0: it is 0 when the price
  is absent upstream, and it is not negative when neither upstream amount is negative.
\<close>

theorem parsePropertyItem_identifier_and_price:
  "id_p (fst (parsePropertyItem clk k item loc)) \<noteq> []
   \<and> (price_i item = None \<and> priceInfoAmount item = None
        \<longrightarrow> price (fst (parsePropertyItem clk k item loc)) = 0)
   \<and> ((\<forall>x. price_i item = Some x \<longrightarrow> 0 \<le> x)
        \<and> (\<forall>x. priceInfoAmount item = Some x \<longrightarrow> 0 \<le> x)
        \<longrightarrow> 0 \<le> price (fst (parsePropertyItem clk k item loc)))
   \<and> price (fst (parsePropertyItem clk k item loc))
        = orElseN (price_i item) (orElseN (priceInfoAmount item) 0)"
proof -
  have i: "id_p (fst (parsePropertyItem clk k item loc)) \<noteq> []"
    by (simp add: parsePropertyItem_def Let_def orElseS_nonempty)
  have p: "price (fst (parsePropertyItem clk k item loc))
        = orElseN (price_i item) (orElseN (priceInfoAmount item) 0)"
    by (simp add: parsePropertyItem_def Let_def)
  have z: "price_i item = None \<and> priceInfoAmount item = None
        \<longrightarrow> price (fst (parsePropertyItem clk k item loc)) = 0"
    unfolding p by (simp add: orElseN_def)
  have n: "(\<forall>x. price_i item = Some x \<longrightarrow> 0 \<le> x)
        \<and> (\<forall>x. priceInfoAmount item = Some x \<longrightarrow> 0 \<le> x)
        \<longrightarrow> 0 \<le> price (fst (parsePropertyItem clk k item loc))"
    unfolding p by (auto intro!: orElseN_nonneg)
  show ?thesis
    apply (rule conjI, rule i)
    apply (rule conjI, rule z)
    apply (rule conjI, rule n)
    apply (rule p)
    done
qed

text \<open>The theorem at the raw item with every field absent.\<close>

theorem parsePropertyItem_identifier_and_price_witness:
  "price_i emptyItem = None \<and> priceInfoAmount emptyItem = None
   \<and> id_p (fst (parsePropertyItem sample_clock 0 emptyItem ''lisboa'')) \<noteq> []
   \<and> price (fst (parsePropertyItem sample_clock 0 emptyItem ''lisboa'')) = 0
   \<and> 0 \<le> price (fst (parsePropertyItem sample_clock 0 emptyItem ''lisboa''))"
proof -
  have a: "price_i emptyItem = None" by (simp add: emptyItem_def)
  have b: "priceInfoAmount emptyItem = None" by (simp add: emptyItem_def priceInfoAmount_def)
  note t = parsePropertyItem_identifier_and_price[of sample_clock 0 emptyItem "''lisboa''"]
  have c: "id_p (fst (parsePropertyItem sample_clock 0 emptyItem ''lisboa'')) \<noteq> []"
    by (rule t[THEN conjunct1])
  have d: "price (fst (parsePropertyItem sample_clock 0 emptyItem ''lisboa'')) = 0"
    using t[THEN conjunct2, THEN conjunct1] a b by simp
  have e: "0 \<le> price (fst (parsePropertyItem sample_clock 0 emptyItem ''lisboa''))"
    using t[THEN conjunct2, THEN conjunct2, THEN conjunct1] a b by simp
  show ?thesis by (rule conjI[OF a conjI[OF b conjI[OF c conjI[OF d e]]]])
qed

text \<open>
  C2, as stated, fails twice. The normalizer reads the clock, so a second application to
  the same item and location, made after the first, gives a different record (another
  capture timestamp, and here another synthesized identifier). And it is not total on
  what the item list of a page can hold: on a \<open>null\<close> entry it raises a TypeError.
\<close>

theorem parsePropertyItem_second_application_differs:
  "fst (parsePropertyItem sample_clock 0 emptyItem ''lisboa'')
     \<noteq> fst (parsePropertyItem sample_clock
              (snd (parsePropertyItem sample_clock 0 emptyItem ''lisboa'')) emptyItem ''lisboa'')
   \<and> tryParsePropertyItem sample_clock 0 JNull ''lisboa'' = Inl TypeError"
proof -
  have "scrapedAt (fst (parsePropertyItem sample_clock 0 emptyItem ''lisboa''))
     \<noteq> scrapedAt (fst (parsePropertyItem sample_clock
            (snd (parsePropertyItem sample_clock 0 emptyItem ''lisboa'')) emptyItem ''lisboa''))"
    by (simp add: parsePropertyItem_def Let_def emptyItem_def sample_clock_def orS_def truthyS_def)
  then have a: "fst (parsePropertyItem sample_clock 0 emptyItem ''lisboa'')
     \<noteq> fst (parsePropertyItem sample_clock
              (snd (parsePropertyItem sample_clock 0 emptyItem ''lisboa'')) emptyItem ''lisboa'')"
    by auto
  have b: "tryParsePropertyItem sample_clock 0 JNull ''lisboa'' = Inl TypeError"
    by (simp add: tryParsePropertyItem_def)
  show ?thesis by (rule conjI[OF a b])
qed

text \<open>
  C2, amended. The normalizer is deterministic only given the clock, and it fails on a
  \<open>null\<close> entry of the item list (exactly there, among the entries of the model: an
  entry parses if and only if it is not \<open>null\<close>; \<open>parseNextData\<close> catches the failure
  per item). On an item of the declared type its record is a function of the item, the
  location and the clock readings: two applications to the same item and location agree
  on every field other than the identifier and the capture timestamp; they agree on the
  identifier too when the item has a non-empty \<open>propertyCode\<close> or \<open>externalReference\<close>;
  and they give the same record when the clock readings are the same.
\<close>

theorem parsePropertyItem_deterministic_up_to_clock:
  "((\<exists>r. tryParsePropertyItem clk k el loc = Inr r) = (el \<noteq> JNull))
   \<and> (fst (parsePropertyItem clk k item loc))\<lparr>id_p := i, scrapedAt := t\<rparr>
       = (fst (parsePropertyItem clk' k' item loc))\<lparr>id_p := i, scrapedAt := t\<rparr>
   \<and> (truthyS (orS (propertyCode item) (externalReference item)) \<longrightarrow>
        id_p (fst (parsePropertyItem clk k item loc))
          = id_p (fst (parsePropertyItem clk' k' item loc)))
   \<and> (clk k = clk' k' \<and> clk (Suc k) = clk' (Suc k') \<longrightarrow>
        fst (parsePropertyItem clk k item loc) = fst (parsePropertyItem clk' k' item loc))"
proof -
  have a: "(\<exists>r. tryParsePropertyItem clk k el loc = Inr r) = (el \<noteq> JNull)"
    by (cases el) (simp_all add: tryParsePropertyItem_def)
  have b: "(fst (parsePropertyItem clk k item loc))\<lparr>id_p := i, scrapedAt := t\<rparr>
       = (fst (parsePropertyItem clk' k' item loc))\<lparr>id_p := i, scrapedAt := t\<rparr>"
    by (simp add: parsePropertyItem_def Let_def)
  have c: "truthyS (orS (propertyCode item) (externalReference item)) \<longrightarrow>
        id_p (fst (parsePropertyItem clk k item loc))
          = id_p (fst (parsePropertyItem clk' k' item loc))"
    by (auto simp: parsePropertyItem_def Let_def orElseS_def truthyS_def split: option.splits)
  have d: "clk k = clk' k' \<and> clk (Suc k) = clk' (Suc k') \<longrightarrow>
        fst (parsePropertyItem clk k item loc) = fst (parsePropertyItem clk' k' item loc)"
    by (simp add: parsePropertyItem_def Let_def)
  show ?thesis
    apply (rule conjI, rule a)
    apply (rule conjI, rule b)
    apply (rule conjI, rule c)
    apply (rule d)
    done
qed

text \<open>
  The theorem at sample inputs: an item with a property code, parsed at two different
  instants; the empty item parsed under two clocks that return the same readings; and
  the two kinds of entry, of which the \<open>null\<close> one does not parse.
\<close>

theorem parsePropertyItem_deterministic_up_to_clock_witness:
  "truthyS (orS (propertyCode (emptyItem\<lparr>propertyCode := Some ''33491''\<rparr>))
                (externalReference (emptyItem\<lparr>propertyCode := Some ''33491''\<rparr>)))
   \<and> id_p (fst (parsePropertyItem sample_clock 0
                  (emptyItem\<lparr>propertyCode := Some ''33491''\<rparr>) ''lisboa''))
       = id_p (fst (parsePropertyItem sample_clock 7
                  (emptyItem\<lparr>propertyCode := Some ''33491''\<rparr>) ''lisboa''))
   \<and> sample_clock 0 = sample_clock (5 - 5) \<and> sample_clock (Suc 0) = sample_clock (Suc 5 - 5)
   \<and> fst (parsePropertyItem sample_clock 0 emptyItem ''lisboa'')
       = fst (parsePropertyItem (\<lambda>j. sample_clock (j - 5)) 5 emptyItem ''lisboa'')
   \<and> (\<exists>r. tryParsePropertyItem sample_clock 0 (JItem emptyItem) ''lisboa'' = Inr r)
   \<and> \<not> (\<exists>r. tryParsePropertyItem sample_clock 0 JNull ''lisboa'' = Inr r)"
proof -
  let ?item = "emptyItem\<lparr>propertyCode := Some ''33491''\<rparr>"
  have a: "truthyS (orS (propertyCode ?item) (externalReference ?item))"
    by (simp add: emptyItem_def orS_def truthyS_def)
  note t = parsePropertyItem_deterministic_up_to_clock[where clk = sample_clock
             and k = 0 and item = ?item and loc = "''lisboa''" and clk' = sample_clock
             and k' = 7]
  have b: "id_p (fst (parsePropertyItem sample_clock 0 ?item ''lisboa''))
       = id_p (fst (parsePropertyItem sample_clock 7 ?item ''lisboa''))"
    by (rule mp[OF t[THEN conjunct2, THEN conjunct2, THEN conjunct1] a])
  have c: "sample_clock 0 = sample_clock (5 - 5)" by simp
  have d: "sample_clock (Suc 0) = sample_clock (Suc 5 - 5)" by simp
  note u = parsePropertyItem_deterministic_up_to_clock[where clk = sample_clock
             and k = 0 and item = emptyItem and loc = "''lisboa''"
             and clk' = "\<lambda>j. sample_clock (j - 5)" and k' = 5]
  have e: "fst (parsePropertyItem sample_clock 0 emptyItem ''lisboa'')
       = fst (parsePropertyItem (\<lambda>j. sample_clock (j - 5)) 5 emptyItem ''lisboa'')"
    by (rule mp[OF u[THEN conjunct2, THEN conjunct2, THEN conjunct2] conjI[OF c d]])
  have ne: "JItem emptyItem \<noteq> JNull" by simp
  have f: "\<exists>r. tryParsePropertyItem sample_clock 0 (JItem emptyItem) ''lisboa'' = Inr r"
    by (rule iffD2[OF parsePropertyItem_deterministic_up_to_clock[where clk = sample_clock
          and k = 0 and el = "JItem emptyItem" and loc = "''lisboa''", THEN conjunct1] ne])
  have nn: "\<not> JNull \<noteq> JNull" by simp
  have g: "\<not> (\<exists>r. tryParsePropertyItem sample_clock 0 JNull ''lisboa'' = Inr r)"
    using parsePropertyItem_deterministic_up_to_clock[where clk = sample_clock
          and k = 0 and el = JNull and loc = "''lisboa''", THEN conjunct1] nn
    by blast
  show ?thesis
    by (rule conjI[OF a conjI[OF b conjI[OF c conjI[OF d conjI[OF e conjI[OF f g]]]]]])
qed



text \<open>
  C7. A blocked fetch ends the crawl of the location at once. If the call of
  \<open>scrapePage\<close> for page \<open>n\<close> throws an error that the handler reads as blocked (an
  \<open>Error\<close> whose message contains \<open>blocked\<close>), that call is the last one of the run:
  the pages fetched are exactly 1 to \<open>n\<close>, page \<open>n\<close> is fetched once (no retry), no
  later page is fetched, the loop ends by the blocked \<open>break\<close>, and the result holds
  all the records gathered from the calls before it.
\<close>

theorem scrapeLocation_blocked_ends_crawl:
  assumes call: "(n, Inl e) \<in> set (fetched (scrapeLocation sp pause opts w))"
    and blocked: "isBlocked e"
  shows "last (fetched (scrapeLocation sp pause opts w)) = (n, Inl e)
       \<and> map fst (fetched (scrapeLocation sp pause opts w)) = [1..n]
       \<and> length (filter (\<lambda>c. fst c = n) (fetched (scrapeLocation sp pause opts w))) = 1
       \<and> (\<forall>c \<in> set (fetched (scrapeLocation sp pause opts w)). fst c \<le> n)
       \<and> stopped_by (scrapeLocation sp pause opts w) = BlockedStop
       \<and> finalProperties (scrapeLocation sp pause opts w)
           = concat (map (\<lambda>c. recordsOf (snd c))
                       (butlast (fetched (scrapeLocation sp pause opts w))))"
proof -
  let ?mp = "case maxPages opts of None \<Rightarrow> 5 | Some m \<Rightarrow> m"
  obtain acc calls how w1 where
    e: "scrapeLoop sp pause ?mp (limit opts) 1 [] [] w = (acc, calls, how, w1)"
    and f: "fetched (scrapeLocation sp pause opts w) = calls"
    and s: "stopped_by (scrapeLocation sp pause opts w) = how"
    and p: "finalProperties (scrapeLocation sp pause opts w)
       = (case limit opts of None \<Rightarrow> acc
          | Some l \<Rightarrow> if l \<noteq> 0 then sliceTo acc l else acc)"
    and a: "acc = concat (map (\<lambda>c. recordsOf (snd c)) calls)"
    and m: "map fst calls = [1..int (length calls)]"
    by (rule scrapeLocation_run[of sp pause opts w]) blast
  have mem: "(n, Inl e) \<in> set calls" using call f by simp
  then have ne: "calls \<noteq> []" by auto
  from scrapeLoop_blocked_last[where sp = sp and pause = pause and mp = ?mp
         and lmt = "limit opts" and page = 1 and acc = "[]" and calls = "[]" and w = w]
  have "(n, Inl e) \<in> set calls \<longrightarrow> isBlocked e \<longrightarrow>
          (n, Inl e) \<in> set [] \<or> (last calls = (n, Inl e) \<and> how = BlockedStop)"
    unfolding e by simp
  then have lst: "last calls = (n, Inl e)" and how: "how = BlockedStop"
    using mem blocked by simp_all
  have "last (map fst calls) = n" using lst ne by (simp add: last_map)
  moreover have "1 \<le> int (length calls)" using ne by (cases calls) auto
  then have "last [1..int (length calls)] = int (length calls)"
    by (rule last_upto_one)
  ultimately have n: "int (length calls) = n" using m by simp
  have pages: "map fst calls = [1..n]" using m n by simp
  have one: "1 \<le> n" using n ne by (cases calls) auto
  have "length (filter (\<lambda>c. fst c = n) calls)
          = length (filter (\<lambda>x. x = n) (map fst calls))"
    by (simp add: filter_map comp_def)
  also have "\<dots> = 1"
    unfolding pages using one by (intro distinct_filter_eq_one) simp_all
  finally have once: "length (filter (\<lambda>c. fst c = n) calls) = 1" .
  have upper: "\<forall>c \<in> set calls. fst c \<le> n"
    using upto_from_one_facts(3)[OF m] n by simp
  from scrapeLoop_withinLimit[where sp = sp and pause = pause and mp = ?mp
         and lmt = "limit opts" and page = 1 and acc = "[]" and calls = "[]" and w = w]
  have wl: "withinLimit (limit opts) acc"
    unfolding e using how by (simp add: withinLimit_def)
  have fin: "finalProperties (scrapeLocation sp pause opts w) = acc"
    unfolding p using wl by (auto split: option.splits simp: sliceTo_withinLimit)
  have "calls = butlast calls @ [(n, Inl e)]"
    using ne lst append_butlast_last_id[of calls] by simp
  then have "concat (map (\<lambda>c. recordsOf (snd c)) calls)
      = concat (map (\<lambda>c. recordsOf (snd c)) (butlast calls @ [(n, Inl e)]))"
    by simp
  then have kept: "acc = concat (map (\<lambda>c. recordsOf (snd c)) (butlast calls))"
    using a by (simp add: recordsOf_def)
  show ?thesis
    unfolding f s using lst pages once upper how fin kept by simp
qed

text \<open>
  The theorem on a site that serves two items on page 1 and blocks page 2, with a page
  limit of 5: pages 1 and 2 are fetched, page 3 is not, and the two items are returned.
\<close>

theorem scrapeLocation_blocked_ends_crawl_witness:
  "(2, Inl (Error ''Request blocked by DataDome''))
      \<in> set (fetched (scrapeLocation blocking_site id \<lparr> maxPages = Some 5, limit = None \<rparr> 0))
   \<and> isBlocked (Error ''Request blocked by DataDome'')
   \<and> map fst (fetched (scrapeLocation blocking_site id \<lparr> maxPages = Some 5, limit = None \<rparr> 0))
       = [1, 2]
   \<and> stopped_by (scrapeLocation blocking_site id \<lparr> maxPages = Some 5, limit = None \<rparr> 0)
       = BlockedStop
   \<and> map id_p (finalProperties
         (scrapeLocation blocking_site id \<lparr> maxPages = Some 5, limit = None \<rparr> 0))
       = [''a'', ''b'']"
proof -
  let ?R = "scrapeLocation blocking_site id \<lparr> maxPages = Some 5, limit = None \<rparr> 0"
  have a: "(2, Inl (Error ''Request blocked by DataDome'')) \<in> set (fetched ?R)"
    by code_simp
  have b: "isBlocked (Error ''Request blocked by DataDome'')" by code_simp
  note t = scrapeLocation_blocked_ends_crawl[OF a b]
  have u: "[1..2] = [1, 2 :: int]" by code_simp
  have c: "map fst (fetched ?R) = [1, 2]"
    using t[THEN conjunct2, THEN conjunct1] u by simp
  have d: "stopped_by ?R = BlockedStop"
    by (rule t[THEN conjunct2, THEN conjunct2, THEN conjunct2, THEN conjunct2, THEN conjunct1])
  have g: "butlast (fetched ?R) = [(1, Inr (pageOf [''a'', ''b''] True))]" by code_simp
  have e: "map id_p (finalProperties ?R) = [''a'', ''b'']"
    unfolding t[THEN conjunct2, THEN conjunct2, THEN conjunct2, THEN conjunct2, THEN conjunct2]
      g
    by (simp add: recordsOf_def pageOf_def propertyWithId_def)
  show ?thesis by (rule conjI[OF a conjI[OF b conjI[OF c conjI[OF d e]]]])
qed


text \<open>
  C9. Pagination invariant: in every crawl of a location the page numbers fetched are
  1, 2, ... in this order: the first is 1, each following one is the one before plus 1,
  and none exceeds the page limit \<open>maxPages\<close> (5 when absent).
\<close>

theorem scrapeLocation_page_indices:
  "map fst (fetched (scrapeLocation sp pause opts w))
     = [1..int (length (fetched (scrapeLocation sp pause opts w)))]
   \<and> (fetched (scrapeLocation sp pause opts w) \<noteq> [] \<longrightarrow>
        fst (hd (fetched (scrapeLocation sp pause opts w))) = 1)
   \<and> (\<forall>i. Suc i < length (fetched (scrapeLocation sp pause opts w)) \<longrightarrow>
        fst (fetched (scrapeLocation sp pause opts w) ! Suc i)
          = fst (fetched (scrapeLocation sp pause opts w) ! i) + 1)
   \<and> (\<forall>c \<in> set (fetched (scrapeLocation sp pause opts w)).
        1 \<le> fst c \<and> fst c \<le> (case maxPages opts of None \<Rightarrow> 5 | Some m \<Rightarrow> m))"
proof -
  let ?calls = "fetched (scrapeLocation sp pause opts w)"
  let ?mp = "case maxPages opts of None \<Rightarrow> 5 | Some m \<Rightarrow> m"
  obtain acc calls how w1 where f: "?calls = calls"
    and m: "map fst calls = [1..int (length calls)]"
    and l: "int (length calls) \<le> max 0 ?mp"
    by (rule scrapeLocation_run[of sp pause opts w]) blast
  have a: "map fst ?calls = [1..int (length ?calls)]" using f m by simp
  have le: "int (length ?calls) \<le> max 0 ?mp" using f l by simp
  have b: "?calls \<noteq> [] \<longrightarrow> fst (hd ?calls) = 1"
    by (rule upto_from_one_facts(1)[OF a])
  have c: "\<forall>i. Suc i < length ?calls \<longrightarrow> fst (?calls ! Suc i) = fst (?calls ! i) + 1"
    by (rule upto_from_one_facts(2)[OF a])
  have d: "\<forall>c \<in> set ?calls. 1 \<le> fst c \<and> fst c \<le> ?mp"
  proof
    fix c assume m: "c \<in> set ?calls"
    then have "1 \<le> fst c \<and> fst c \<le> int (length ?calls)"
      using upto_from_one_facts(3)[OF a] by blast
    then show "1 \<le> fst c \<and> fst c \<le> ?mp" using le by linarith
  qed
  show ?thesis
    apply (rule conjI, rule a)
    apply (rule conjI, rule b)
    apply (rule conjI, rule c)
    apply (rule d)
    done
qed


text \<open>
  The theorem on a site whose page 2 fails with a timeout and whose page 3 is the last:
  the pages fetched are 1, 2, 3 under a page limit of 3.
\<close>

theorem scrapeLocation_page_indices_witness:
  "fetched (scrapeLocation flaky_site id \<lparr> maxPages = Some 3, limit = None \<rparr> 0) \<noteq> []
   \<and> Suc 0 < length (fetched (scrapeLocation flaky_site id \<lparr> maxPages = Some 3, limit = None \<rparr> 0))
   \<and> (3, Inr (pageOf [''c''] False))
        \<in> set (fetched (scrapeLocation flaky_site id \<lparr> maxPages = Some 3, limit = None \<rparr> 0))
   \<and> fst (hd (fetched (scrapeLocation flaky_site id \<lparr> maxPages = Some 3, limit = None \<rparr> 0))) = 1
   \<and> fst (fetched (scrapeLocation flaky_site id \<lparr> maxPages = Some 3, limit = None \<rparr> 0) ! Suc 0)
       = fst (fetched (scrapeLocation flaky_site id \<lparr> maxPages = Some 3, limit = None \<rparr> 0) ! 0) + 1
   \<and> map fst (fetched (scrapeLocation flaky_site id \<lparr> maxPages = Some 3, limit = None \<rparr> 0))
       = [1, 2, 3]"
proof -
  let ?R = "scrapeLocation flaky_site id \<lparr> maxPages = Some 3, limit = None \<rparr> 0"
  have len: "length (fetched ?R) = 3" by code_simp
  have a: "fetched ?R \<noteq> []" using len by auto
  have b: "Suc 0 < length (fetched ?R)" using len by simp
  have c: "(3, Inr (pageOf [''c''] False)) \<in> set (fetched ?R)" by code_simp
  note t = scrapeLocation_page_indices[of flaky_site id "\<lparr> maxPages = Some 3, limit = None \<rparr>" 0]
  have d: "fst (hd (fetched ?R)) = 1"
    by (rule mp[OF t[THEN conjunct2, THEN conjunct1] a])
  have e: "fst (fetched ?R ! Suc 0) = fst (fetched ?R ! 0) + 1"
    by (rule mp[OF spec[OF t[THEN conjunct2, THEN conjunct2, THEN conjunct1]] b])
  have u: "[1..3] = [1, 2, 3 :: int]" by code_simp
  have f: "map fst (fetched ?R) = [1, 2, 3]"
    using t[THEN conjunct1] len u by simp
  show ?thesis by (rule conjI[OF a conjI[OF b conjI[OF c conjI[OF d conjI[OF e f]]]]])
qed


text \<open>
  C8, as stated, fails in its second half: for a document without the container and for
  a document whose container does not parse, \<open>extractNextData\<close> returns the same value
  (\<open>null\<close>), so its caller cannot tell the two apart.
\<close>

theorem extractNextData_same_value_counterexample:
  "returnedData (extractNextData sample_selectTag sample_jsonParse page_without_state)
     = returnedData (extractNextData sample_selectTag sample_jsonParse page_with_broken_state)"
  by (simp add: returnedData_def extractNextData_def extractNextData_body_def
        sample_selectTag_def sample_jsonParse_def page_without_state_def
        page_with_broken_state_def page_with_state_def truthyS_def orElseS_def)

text \<open>
  C8, amended. Embedded-state extraction never raises, whatever the document and
  whatever the two library calls do: every failure is returned as the value \<open>null\<close>.
  A missing container, an empty container, a container that does not parse and a
  library call that throws all return \<open>null\<close>; they differ only in the message logged.
\<close>

theorem extractNextData_never_raises:
  "(\<exists>d lg. extractNextData selectTag jsonParse html = Inr (d, lg))
   \<and> (selectTag html = Inr [] \<longrightarrow>
        extractNextData selectTag jsonParse html = Inr (None, [TagNotFound]))
   \<and> (\<forall>others. selectTag html = Inr (None # others) \<or> selectTag html = Inr (Some [] # others)
        \<longrightarrow> extractNextData selectTag jsonParse html = Inr (None, [TagEmpty]))
   \<and> (\<forall>t others err. selectTag html = Inr (Some t # others) \<and> t \<noteq> []
                       \<and> jsonParse t = Inl err \<longrightarrow>
        extractNextData selectTag jsonParse html = Inr (None, [ExtractFailed err]))
   \<and> (\<forall>err. selectTag html = Inl err \<longrightarrow>
        extractNextData selectTag jsonParse html = Inr (None, [ExtractFailed err]))
   \<and> (\<forall>d lg. extractNextData selectTag jsonParse html = Inr (d, lg) \<and> lg \<noteq> []
        \<longrightarrow> d = None)"
proof -
  have a: "\<exists>d lg. extractNextData selectTag jsonParse html = Inr (d, lg)"
    by (auto simp: extractNextData_def split: sum.splits)
  have b: "selectTag html = Inr [] \<longrightarrow>
        extractNextData selectTag jsonParse html = Inr (None, [TagNotFound])"
    by (simp add: extractNextData_def extractNextData_body_def)
  have c: "\<forall>others. selectTag html = Inr (None # others) \<or> selectTag html = Inr (Some [] # others)
        \<longrightarrow> extractNextData selectTag jsonParse html = Inr (None, [TagEmpty])"
    by (auto simp: extractNextData_def extractNextData_body_def truthyS_def)
  have d: "\<forall>t others err. selectTag html = Inr (Some t # others) \<and> t \<noteq> []
                       \<and> jsonParse t = Inl err \<longrightarrow>
        extractNextData selectTag jsonParse html = Inr (None, [ExtractFailed err])"
    by (auto simp: extractNextData_def extractNextData_body_def truthyS_def orElseS_def)
  have e: "\<forall>err. selectTag html = Inl err \<longrightarrow>
        extractNextData selectTag jsonParse html = Inr (None, [ExtractFailed err])"
    by (simp add: extractNextData_def extractNextData_body_def)
  have f: "\<forall>d lg. extractNextData selectTag jsonParse html = Inr (d, lg) \<and> lg \<noteq> []
        \<longrightarrow> d = None"
    by (auto simp: extractNextData_def extractNextData_body_def
          split: sum.splits list.splits if_splits)
  show ?thesis
    apply (rule conjI, rule a)
    apply (rule conjI, rule b)
    apply (rule conjI, rule c)
    apply (rule conjI, rule d)
    apply (rule conjI, rule e)
    apply (rule f)
    done
qed

text \<open>The theorem on the page without a container and on the page with a broken one.\<close>

theorem extractNextData_never_raises_witness:
  "sample_selectTag page_without_state = Inr []
   \<and> extractNextData sample_selectTag sample_jsonParse page_without_state
       = Inr (None, [TagNotFound])
   \<and> sample_selectTag page_with_broken_state = Inr [Some ''{'']
   \<and> sample_jsonParse ''{'' = Inl (Error ''Unexpected end of JSON input'')
   \<and> extractNextData sample_selectTag sample_jsonParse page_with_broken_state
       = Inr (None, [ExtractFailed (Error ''Unexpected end of JSON input'')])"
proof -
  have a: "sample_selectTag page_without_state = Inr []"
    by (simp add: sample_selectTag_def page_without_state_def page_with_broken_state_def
          page_with_state_def)
  have b: "extractNextData sample_selectTag sample_jsonParse page_without_state
       = Inr (None, [TagNotFound])"
    by (rule mp[OF extractNextData_never_raises[where selectTag = sample_selectTag
             and jsonParse = sample_jsonParse and html = page_without_state,
             THEN conjunct2, THEN conjunct1] a])
  have c: "sample_selectTag page_with_broken_state = Inr [Some ''{'']"
    by (simp add: sample_selectTag_def)
  have d: "sample_jsonParse ''{'' = Inl (Error ''Unexpected end of JSON input'')"
    by (simp add: sample_jsonParse_def)
  have ne: "''{'' \<noteq> []" by simp
  note t = extractNextData_never_raises[where selectTag = sample_selectTag
             and jsonParse = sample_jsonParse and html = page_with_broken_state,
             THEN conjunct2, THEN conjunct2, THEN conjunct2, THEN conjunct1]
  have e: "extractNextData sample_selectTag sample_jsonParse page_with_broken_state
       = Inr (None, [ExtractFailed (Error ''Unexpected end of JSON input'')])"
    by (rule mp[OF spec[OF spec[OF spec[OF t]]] conjI[OF c conjI[OF ne d]]])
  show ?thesis by (rule conjI[OF a conjI[OF b conjI[OF c conjI[OF d e]]]])
qed

text \<open>
  C10. Page parsing is total and isolates faults per item: \<open>parseNextData\<close> never
  throws; on an array it returns the records of its well-formed entries, in order; an
  entry whose parse raises is dropped alone, the result being that of the page without
  it, so the result has one record per entry that is not \<open>null\<close>; and a state with no
  item list, with an empty one, or with an \<open>elementList\<close> that is not an array gives
  the empty list.
\<close>

theorem parseNextData_total_and_isolating:
  "(\<exists>ps k'. parseNextData clk k nd loc = Inr (ps, k'))
   \<and> (\<forall>els. elementListOf nd = Some (ElementArray els) \<longrightarrow>
        (\<exists>k'. parseNextData clk k nd loc = Inr (parsedItems clk k els loc, k')))
   \<and> (\<forall>xs ys nd'. elementListOf nd = Some (ElementArray (xs @ JNull # ys))
                  \<and> elementListOf nd' = Some (ElementArray (xs @ ys)) \<longrightarrow>
        parseNextData clk k nd loc = parseNextData clk k nd' loc)
   \<and> length (parsedItems clk k els loc) = length (filter (\<lambda>el. el \<noteq> JNull) els)
   \<and> (elementListOf nd = None \<or> elementListOf nd = Some NotAnArray
        \<or> elementListOf nd = Some (ElementArray []) \<longrightarrow>
        parseNextData clk k nd loc = Inr ([], k))"
proof -
  have a: "\<exists>ps k'. parseNextData clk k nd loc = Inr (ps, k')"
    by (auto simp: parseNextData_def split: sum.splits)
  have b: "\<forall>els. elementListOf nd = Some (ElementArray els) \<longrightarrow>
        (\<exists>k'. parseNextData clk k nd loc = Inr (parsedItems clk k els loc, k'))"
    by (simp add: parseNextData_array)
  have c: "\<forall>xs ys nd'. elementListOf nd = Some (ElementArray (xs @ JNull # ys))
                  \<and> elementListOf nd' = Some (ElementArray (xs @ ys)) \<longrightarrow>
        parseNextData clk k nd loc = parseNextData clk k nd' loc"
    by (simp add: parseNextData_array parsedItems_skip_null mapItems_clock_skip_null)
  have d: "length (parsedItems clk k els loc) = length (filter (\<lambda>el. el \<noteq> JNull) els)"
    by (rule parsedItems_length)
  have e: "elementListOf nd = None \<or> elementListOf nd = Some NotAnArray
        \<or> elementListOf nd = Some (ElementArray []) \<longrightarrow>
        parseNextData clk k nd loc = Inr ([], k)"
    by (auto simp: parseNextData_def parseNextData_body_def)
  show ?thesis
    apply (rule conjI, rule a)
    apply (rule conjI, rule b)
    apply (rule conjI, rule c)
    apply (rule conjI, rule d)
    apply (rule e)
    done
qed


text \<open>
  The theorem on a page of three entries whose second is \<open>null\<close>, on a state whose
  \<open>elementList\<close> is not an array, and on a state without \<open>props\<close>.
\<close>

theorem parseNextData_total_and_isolating_witness:
  "elementListOf (nextDataWith (Some (ElementArray
       [JItem (emptyItem\<lparr>propertyCode := Some ''p1''\<rparr>), JNull,
        JItem (emptyItem\<lparr>propertyCode := Some ''p2''\<rparr>)])))
     = Some (ElementArray
       [JItem (emptyItem\<lparr>propertyCode := Some ''p1''\<rparr>), JNull,
        JItem (emptyItem\<lparr>propertyCode := Some ''p2''\<rparr>)])
   \<and> (\<exists>k'. parseNextData sample_clock 0 (nextDataWith (Some (ElementArray
       [JItem (emptyItem\<lparr>propertyCode := Some ''p1''\<rparr>), JNull,
        JItem (emptyItem\<lparr>propertyCode := Some ''p2''\<rparr>)]))) ''lisboa''
         = Inr (parsedItems sample_clock 0
       [JItem (emptyItem\<lparr>propertyCode := Some ''p1''\<rparr>), JNull,
        JItem (emptyItem\<lparr>propertyCode := Some ''p2''\<rparr>)] ''lisboa'', k'))
   \<and> map id_p (parsedItems sample_clock 0
       [JItem (emptyItem\<lparr>propertyCode := Some ''p1''\<rparr>), JNull,
        JItem (emptyItem\<lparr>propertyCode := Some ''p2''\<rparr>)] ''lisboa'') = [''p1'', ''p2'']
   \<and> elementListOf (nextDataWith (Some NotAnArray)) = Some NotAnArray
   \<and> parseNextData sample_clock 0 (nextDataWith (Some NotAnArray)) ''lisboa'' = Inr ([], 0)
   \<and> elementListOf \<lparr> props = None \<rparr> = None
   \<and> parseNextData sample_clock 0 \<lparr> props = None \<rparr> ''lisboa'' = Inr ([], 0)"
proof -
  let ?els = "[JItem (emptyItem\<lparr>propertyCode := Some ''p1''\<rparr>), JNull,
        JItem (emptyItem\<lparr>propertyCode := Some ''p2''\<rparr>)]"
  have a: "elementListOf (nextDataWith (Some (ElementArray ?els))) = Some (ElementArray ?els)"
    by (simp add: elementListOf_def searchDataOf_def nextDataWith_def)
  note t = parseNextData_total_and_isolating[where clk = sample_clock and k = 0
             and nd = "nextDataWith (Some (ElementArray ?els))" and loc = "''lisboa''"]
  have b: "\<exists>k'. parseNextData sample_clock 0 (nextDataWith (Some (ElementArray ?els))) ''lisboa''
         = Inr (parsedItems sample_clock 0 ?els ''lisboa'', k')"
    by (rule mp[OF spec[OF t[THEN conjunct2, THEN conjunct1]] a])
  have c: "map id_p (parsedItems sample_clock 0 ?els ''lisboa'') = [''p1'', ''p2'']"
    by (simp add: parsePropertyItem_def Let_def emptyItem_def orElseS_def orS_def truthyS_def)
  have d: "elementListOf (nextDataWith (Some NotAnArray)) = Some NotAnArray"
    by (simp add: elementListOf_def searchDataOf_def nextDataWith_def)
  note u = parseNextData_total_and_isolating[where clk = sample_clock and k = 0
             and nd = "nextDataWith (Some NotAnArray)" and loc = "''lisboa''",
             THEN conjunct2, THEN conjunct2, THEN conjunct2, THEN conjunct2]
  have e: "parseNextData sample_clock 0 (nextDataWith (Some NotAnArray)) ''lisboa'' = Inr ([], 0)"
    by (rule mp[OF u disjI2[OF disjI1[OF d]]])
  have f: "elementListOf \<lparr> props = None \<rparr> = None"
    by (simp add: elementListOf_def searchDataOf_def)
  note v = parseNextData_total_and_isolating[where clk = sample_clock and k = 0
             and nd = "\<lparr> props = None \<rparr>" and loc = "''lisboa''",
             THEN conjunct2, THEN conjunct2, THEN conjunct2, THEN conjunct2]
  have g: "parseNextData sample_clock 0 \<lparr> props = None \<rparr> ''lisboa'' = Inr ([], 0)"
    by (rule mp[OF v disjI1[OF f]])
  show ?thesis
    by (rule conjI[OF a conjI[OF b conjI[OF c conjI[OF d conjI[OF e conjI[OF f g]]]]]])
qed

end
